theory Spec2Isabelle
  imports Main "HOL-Library.Sublist"
begin

section \<open>Python values\<close>

text \<open>
  A Python \<open>dict\<close> keeps its keys in insertion order; storing under a key that is
  already present replaces the value and keeps the key's position. It is modelled as an
  association list with pairwise distinct keys, built only by \<open>dict_set\<close>.
\<close>

type_synonym ('k, 'v) dict = "('k \<times> 'v) list"

fun dict_set :: "('k, 'v) dict \<Rightarrow> 'k \<Rightarrow> 'v \<Rightarrow> ('k, 'v) dict" where
  "dict_set [] k v = [(k, v)]"
| "dict_set ((k', v') # d) k v =
     (if k' = k then (k', v) # d else (k', v') # dict_set d k v)"

definition dict_get :: "('k, 'v) dict \<Rightarrow> 'k \<Rightarrow> 'v option" where
  "dict_get d k = map_of d k"

definition dict_keys :: "('k, 'v) dict \<Rightarrow> 'k list" where
  "dict_keys d = map fst d"

text \<open>
  The exceptions of the model. All of them are subclasses of Python's \<open>Exception\<close>;
  \<open>TypeError\<close> is kept apart because discovery handles it in a branch of its own.
  The two lookup errors are both \<open>KeyError\<close> in Python: the model tells the lookup
  in the registry (\<open>self.parsers[...]\<close>) from the lookup in
  \<open>FRAMEWORK_LIBRARY_MAPPING\<close>.
\<close>

datatype exn =
    TypeError
  | AttributeError string
  | RegistryKeyError "string option"
  | FrameworkKeyError "string option"
  | RegexError string
  | YaraError string
  | OSError string
  | RecursionError
  | OtherException string

section \<open>Result records and \<open>finalize\<close> (main.py, lines 166--175)\<close>

text \<open>
  A network connection entry of \<open>config.http\<close>: a dict whose \<open>protocol\<close> and
  \<open>uri\<close> keys may be absent (\<open>None\<close>) and hold strings when present. A result
  record is \<open>{author, description, config}\<close>; \<open>config\<close> may be missing, and so may
  its \<open>http\<close> list. \<open>other\<close> is the raw output a CAPE parser returned.
\<close>

record network_conn =
  protocol :: "string option"
  uri :: "string option"

type_synonym raw = "(string \<times> string) list"

record config =
  family :: "string option"
  other :: "raw option"
  http :: "network_conn list option"

record result_record =
  author :: string
  description :: string
  config :: "config option"

type_synonym results = "(string, result_record) dict"

text \<open>
  The body of the inner loop of \<open>finalize\<close>:
  \<^verbatim>\<open>network_conn.setdefault('protocol', 'http')\<close>, then
  \<^verbatim>\<open>uri = network_conn.get('uri')\<close> and, under the guard
  \<^verbatim>\<open>if uri and not uri.startswith(network_conn['protocol'])\<close>, the rewrite
  \<^verbatim>\<open>network_conn['uri'] = f"{network_conn['protocol']}://{uri}"\<close>.
  \<open>uri\<close> is falsy when the key is absent or the string is empty.
\<close>

definition finalize_conn :: "network_conn \<Rightarrow> network_conn" where
  "finalize_conn nc =
     (let p = (case protocol nc of None \<Rightarrow> ''http'' | Some q \<Rightarrow> q);
          nc1 = nc\<lparr>protocol := Some p\<rparr>
      in case uri nc1 of
           None \<Rightarrow> nc1
         | Some u \<Rightarrow>
             if u \<noteq> [] \<and> \<not> prefix p u
             then nc1\<lparr>uri := Some (p @ ''://'' @ u)\<rparr>
             else nc1)"

text \<open>\<^verbatim>\<open>for network_conn in config.get('http', [])\<close>\<close>

definition finalize_config :: "config \<Rightarrow> config" where
  "finalize_config c =
     (case http c of
        None \<Rightarrow> c
      | Some ncs \<Rightarrow> c\<lparr>http := Some (map finalize_conn ncs)\<rparr>)"

text \<open>\<^verbatim>\<open>config = config.get('config', {})\<close>\<close>

definition finalize_record :: "result_record \<Rightarrow> result_record" where
  "finalize_record r =
     (case config r of
        None \<Rightarrow> r
      | Some c \<Rightarrow> r\<lparr>config := Some (finalize_config c)\<rparr>)"

text \<open>
  \<^verbatim>\<open>for config in results.values()\<close>: the source mutates the entries in place and
  returns nothing; the model returns the mapping after the call.
\<close>

definition finalize :: "results \<Rightarrow> results" where
  "finalize rs = map (\<lambda>(name, r). (name, finalize_record r)) rs"

section \<open>Candidates, samples and the external libraries\<close>

text \<open>
  A candidate is what discovery inspects: a loaded module object or a class found in it.
  The source reads the attributes \<open>__name__\<close> (always present) and \<open>__module__\<close>
  (a class has it: the name of the module that defines the class; a module object has
  none, and reading it raises \<open>AttributeError\<close>). The CAPE adapter reads
  \<open>extract_config\<close>, \<open>AUTHOR\<close> and \<open>DESCRIPTION\<close>; an absent attribute is
  \<open>None\<close>. HOL equality of candidates stands for Python's object identity.
\<close>

record candidate =
  py_name :: string
  py_module :: "string option"
  extract_config :: "(string \<Rightarrow> exn + raw) option"
  AUTHOR :: "string option"
  DESCRIPTION :: "string option"

text \<open>
  A sample is a path; \<open>sample_bytes\<close> is what
  \<^verbatim>\<open>open(sample_path, 'rb').read()\<close> gives for it.
\<close>

record sample =
  sample_path :: string
  sample_bytes :: "exn + string"

text \<open>A match of the compiled ruleset carries the rule's metadata.\<close>

record yara_match =
  meta :: "(string, string) dict"

text \<open>
  The \<open>regex\<close> library is a parameter of the model: \<open>regex.compile\<close> maps the
  pattern source to an error or a compiled pattern, and a compiled pattern \<open>r\<close> is the
  predicate "\<open>r s i\<close>: the pattern matches \<open>s\<close> starting at offset \<open>i\<close>".
  \<open>Pattern.match\<close>, the method the source calls, tries offset 0 only;
  \<open>Pattern.search\<close>, which the source does not call, tries every offset.
\<close>

type_synonym pattern = "string \<Rightarrow> nat \<Rightarrow> bool"

definition rx_match :: "pattern \<Rightarrow> string \<Rightarrow> bool" where
  "rx_match r s = r s 0"

definition rx_search :: "pattern \<Rightarrow> string \<Rightarrow> bool" where
  "rx_search r s = list_ex (r s) [0..<Suc (length s)]"

text \<open>Python's \<open>sep.join(xs)\<close>.\<close>

fun join :: "string \<Rightarrow> string list \<Rightarrow> string" where
  "join sep [] = []"
| "join sep [x] = x"
| "join sep (x # y # ys) = x @ sep @ join sep (y # ys)"

text \<open>
  \<^verbatim>\<open>block_regex = regex.compile('|'.join(parser_blocklist)) if parser_blocklist else None\<close>
  (lines 66 and 181), and the test
  \<^verbatim>\<open>block_regex and block_regex.match(name)\<close> (lines 117, 191 and 200).
\<close>

definition compile_blocklist ::
  "(string \<Rightarrow> exn + pattern) \<Rightarrow> string list \<Rightarrow> exn + pattern option" where
  "compile_blocklist regex_compile parser_blocklist =
     (if parser_blocklist = [] then Inr None
      else case regex_compile (join ''|'' parser_blocklist) of
             Inl e \<Rightarrow> Inl e
           | Inr r \<Rightarrow> Inr (Some r))"

definition blocked :: "pattern option \<Rightarrow> string \<Rightarrow> bool" where
  "blocked block_regex name =
     (case block_regex of None \<Rightarrow> False | Some r \<Rightarrow> rx_match r name)"

text \<open>
  Python's \<open>s.replace(old, new)\<close>: every non-overlapping occurrence of \<open>old\<close>,
  from the left. The counter of \<open>replace_aux\<close> is the number of characters of a
  replaced occurrence still to be skipped.
\<close>

fun replace_aux :: "string \<Rightarrow> string \<Rightarrow> nat \<Rightarrow> string \<Rightarrow> string" where
  "replace_aux old new k [] = []"
| "replace_aux old new (Suc k) (c # cs) = replace_aux old new k cs"
| "replace_aux old new 0 (c # cs) =
     (if prefix old (c # cs) then new @ replace_aux old new (length old - 1) cs
      else c # replace_aux old new 0 cs)"

definition replace :: "string \<Rightarrow> string \<Rightarrow> string \<Rightarrow> string" where
  "replace old new s =
     (if old = [] then new @ concat (map (\<lambda>c. c # new) s)
      else replace_aux old new 0 s)"

section \<open>Framework adapters\<close>

text \<open>
  A run batch is the inner dict of \<open>parsers_to_run\<close>: parser to the list of its
  matches. An adapter gives \<open>validate\<close>, \<open>extract_yara_from_module\<close> and \<open>run\<close>;
  each may raise. \<open>extract_yara_from_module member yara_rule_names\<close> is handed the
  mutable list of used rule names, so it returns that list as it left it, also when it
  raises, beside its result. Only the CAPE adapter's \<open>validate\<close> and \<open>run\<close> are in
  the sources; everything else of the adapters is a parameter.
\<close>

type_synonym batch = "(candidate, yara_match list) dict"

record framework =
  validate :: "candidate \<Rightarrow> exn + bool"
  extract_yara_from_module ::
    "candidate \<Rightarrow> string list \<Rightarrow> string list \<times> (exn + string list)"
  run :: "sample \<Rightarrow> batch \<Rightarrow> exn + results"

subsection \<open>CAPE (frameworks/cape.py)\<close>

text \<open>\<^verbatim>\<open>return hasattr(module, 'extract_config')\<close>\<close>

definition CAPE_validate :: "candidate \<Rightarrow> exn + bool" where
  "CAPE_validate member = Inr (extract_config member \<noteq> None)"

text \<open>
  The body of the \<open>try\<close> of \<open>CAPE.run\<close> for one parser (lines 26--33): the record to
  store, \<open>None\<close> when the parser's output is falsy, or the exception raised.
  \<^verbatim>\<open>ExtractorModel(other=result, family=parser_name).dict(skip_defaults=True)\<close> sets
  \<open>family\<close> and \<open>other\<close> and no \<open>http\<close>. The parser's raw output is a
  dict, falsy when empty; \<^verbatim>\<open>parser.DESCRIPTION or ""\<close> is the description itself
  when it is a string.
\<close>

definition CAPE_run_parser ::
  "string \<Rightarrow> sample \<Rightarrow> candidate \<Rightarrow> exn + result_record option" where
  "CAPE_run_parser parser_name smp parser =
     (case extract_config parser of
        None \<Rightarrow> Inl (AttributeError ''extract_config'')
      | Some f \<Rightarrow>
          (case sample_bytes smp of
             Inl e \<Rightarrow> Inl e
           | Inr data \<Rightarrow>
               (case f data of
                  Inl e \<Rightarrow> Inl e
                | Inr result \<Rightarrow>
                    if result \<noteq> [] then
                      (case AUTHOR parser of
                         None \<Rightarrow> Inl (AttributeError ''AUTHOR'')
                       | Some a \<Rightarrow>
                           (case DESCRIPTION parser of
                              None \<Rightarrow> Inl (AttributeError ''DESCRIPTION'')
                            | Some d \<Rightarrow>
                                Inr (Some \<lparr>author = a, description = d,
                                  config = Some \<lparr>family = Some parser_name,
                                    other = Some result, http = None\<rparr>\<rparr>)))
                    else Inr None)))"

text \<open>
  The loop of \<open>CAPE.run\<close> (lines 22--35). \<open>get_name\<close> is inherited from the base
  class, which is not in the sources: it is a parameter, called outside the \<open>try\<close>.
  \<^verbatim>\<open>except Exception\<close> drops the parser's exception and goes on.
\<close>

fun CAPE_run_loop ::
  "(candidate \<Rightarrow> string) \<Rightarrow> sample \<Rightarrow> (candidate \<times> yara_match list) list \<Rightarrow> results \<Rightarrow> results" where
  "CAPE_run_loop get_name smp [] res = res"
| "CAPE_run_loop get_name smp ((parser, yara_matches) # rest) res =
     (let parser_name = get_name parser
      in case CAPE_run_parser parser_name smp parser of
           Inl e \<Rightarrow> CAPE_run_loop get_name smp rest res
         | Inr None \<Rightarrow> CAPE_run_loop get_name smp rest res
         | Inr (Some r) \<Rightarrow> CAPE_run_loop get_name smp rest (dict_set res parser_name r))"

definition CAPE_run :: "(candidate \<Rightarrow> string) \<Rightarrow> sample \<Rightarrow> batch \<Rightarrow> exn + results" where
  "CAPE_run get_name smp parsers_arg = Inr (CAPE_run_loop get_name smp parsers_arg [])"

definition CAPE ::
  "(candidate \<Rightarrow> string) \<Rightarrow>
   (candidate \<Rightarrow> string list \<Rightarrow> string list \<times> (exn + string list)) \<Rightarrow> framework" where
  "CAPE get_name extract =
     \<lparr>validate = CAPE_validate, extract_yara_from_module = extract,
      run = CAPE_run get_name\<rparr>"

section \<open>The extractor (main.py)\<close>

text \<open>
  The fields of \<open>self\<close> that discovery fills and dispatch reads: the registry
  \<open>parsers\<close> (key to candidate), and \<open>standalone_parsers\<close>, a
  \<open>defaultdict(set)\<close> from framework name to candidates. A Python set has no
  specified iteration order; the model keeps each set as a duplicate-free list in
  insertion order. During construction the state also holds the local lists
  \<open>yara_rules\<close> and \<open>yara_rule_names\<close>; after it, the extractor holds the adapters
  (\<open>FRAMEWORK_LIBRARY_MAPPING\<close>, in its fixed order) and the compiled ruleset
  \<open>yara\<close>, whose \<open>match\<close> maps a sample to an error or to its matches.
\<close>

record registry =
  parsers :: "(string, candidate) dict"
  standalone_parsers :: "(string, candidate list) dict"

record discovery = registry +
  yara_rules :: "string list"
  yara_rule_names :: "string list"

record extractor = registry +
  FRAMEWORK_LIBRARY_MAPPING :: "(string, framework) dict"
  yara :: "sample \<Rightarrow> exn + yara_match list"

text \<open>\<^verbatim>\<open>self.standalone_parsers[fw_name].add(member)\<close>\<close>

definition add_standalone ::
  "(string, candidate list) dict \<Rightarrow> string \<Rightarrow> candidate \<Rightarrow> (string, candidate list) dict" where
  "add_standalone sp fw_name member =
     (let s = (case dict_get sp fw_name of None \<Rightarrow> [] | Some l \<Rightarrow> l)
      in dict_set sp fw_name (if member \<in> set s then s else s @ [member]))"

subsection \<open>Discovery: the constructor (lines 21--151)\<close>

text \<open>
  How the body of the \<open>try\<close> (lines 116--126) ends for one adapter and one candidate:
  with \<open>break\<close>, with \<open>continue\<close> (line 118), by falling out of the \<open>if\<close> when
  \<open>validate\<close> is false, or with an exception.
\<close>

datatype outcome = Break | Continue | NoMatch | Raised exn

text \<open>
  The body of the \<open>try\<close>. What it wrote before an exception stays written: the
  registration of line 119 precedes the rule extraction of line 120.
\<close>

definition try_body ::
  "pattern option \<Rightarrow> string \<Rightarrow> framework \<Rightarrow> candidate \<Rightarrow> discovery \<Rightarrow> discovery \<times> outcome" where
  "try_body block_regex fw_name fw_class member d =
     (case validate fw_class member of
        Inl e \<Rightarrow> (d, Raised e)
      | Inr False \<Rightarrow> (d, NoMatch)
      | Inr True \<Rightarrow>
          if blocked block_regex (py_name member) then (d, Continue)
          else
            (case py_module member of
               None \<Rightarrow> (d, Raised (AttributeError ''__module__''))
             | Some key \<Rightarrow>
                 (let d1 = d\<lparr>parsers := dict_set (parsers d) key member\<rparr>;
                      (names, rules) =
                        extract_yara_from_module fw_class member (yara_rule_names d1);
                      d2 = d1\<lparr>yara_rule_names := names\<rparr>
                  in case rules of
                       Inl e \<Rightarrow> (d2, Raised e)
                     | Inr rs \<Rightarrow>
                         if rs = [] then
                           (d2\<lparr>standalone_parsers :=
                               add_standalone (standalone_parsers d2) fw_name member\<rparr>, Break)
                         else (d2\<lparr>yara_rules := yara_rules d2 @ rs\<rparr>, Break))))"

text \<open>
  \<^verbatim>\<open>for fw_name, fw_class in self.FRAMEWORK_LIBRARY_MAPPING.items()\<close> with its
  handlers: \<open>break\<close> leaves the loop; \<open>continue\<close>, a false \<open>validate\<close>,
  \<^verbatim>\<open>except TypeError: pass\<close> and \<^verbatim>\<open>except Exception\<close> (which logs) all go on
  with the next adapter. Logging is not modelled.
\<close>

fun try_frameworks ::
  "pattern option \<Rightarrow> (string, framework) dict \<Rightarrow> candidate \<Rightarrow> discovery \<Rightarrow> discovery" where
  "try_frameworks block_regex [] member d = d"
| "try_frameworks block_regex ((fw_name, fw_class) # fws) member d =
     (case try_body block_regex fw_name fw_class member d of
        (d', Break) \<Rightarrow> d'
      | (d', Continue) \<Rightarrow> try_frameworks block_regex fws member d'
      | (d', NoMatch) \<Rightarrow> try_frameworks block_regex fws member d'
      | (d', Raised TypeError) \<Rightarrow> try_frameworks block_regex fws member d'
      | (d', Raised e) \<Rightarrow> try_frameworks block_regex fws member d')"

text \<open>\<^verbatim>\<open>for member in candidates\<close> (line 113)\<close>

definition inspect_candidates ::
  "pattern option \<Rightarrow> (string, framework) dict \<Rightarrow> candidate list \<Rightarrow> discovery \<Rightarrow> discovery" where
  "inspect_candidates block_regex fws candidates d =
     fold (try_frameworks block_regex fws) candidates d"

text \<open>
  One unit yielded by \<open>pkgutil.walk_packages\<close>: its dotted \<open>module_name\<close>,
  whether it is a package, the directory it was found in (\<open>module_path.path\<close>), and
  what \<open>importlib.import_module\<close> gives for it: an exception, or the module object
  with the classes \<open>inspect.getmembers\<close> finds in it.
\<close>

record py_unit =
  mod_name :: string
  ispkg :: bool
  finder_path :: string
  import_module :: "exn + candidate \<times> candidate list"

text \<open>\<^verbatim>\<open>module_name.split('.')[-1]\<close>\<close>

definition last_component :: "string \<Rightarrow> string" where
  "last_component s = rev (takeWhile (\<lambda>c. c \<noteq> CHR ''.'') (rev s))"

text \<open>
  What the constructor asks of the operating system: \<open>os.listdir\<close>, and the number of
  nested calls the interpreter still allows where line 97 calls
  \<open>find_site_packages\<close> (one more raises \<open>RecursionError\<close>).
\<close>

record os_env =
  os_listdir :: "string \<Rightarrow> exn + string list"
  recursion_limit :: nat

text \<open>
  \<open>os.path.dirname\<close> of a POSIX path: the path up to its last slash, without the
  trailing slashes unless it consists of slashes only. \<open>os.path.join(a, b)\<close> for a
  relative \<open>b\<close>.
\<close>

definition dirname :: "string \<Rightarrow> string" where
  "dirname p =
     (let head = rev (dropWhile (\<lambda>c. c \<noteq> CHR ''/'') (rev p))
      in if head \<noteq> [] \<and> head \<noteq> replicate (length head) CHR ''/''
         then rev (dropWhile (\<lambda>c. c = CHR ''/'') (rev head))
         else head)"

definition join_path :: "string \<Rightarrow> string \<Rightarrow> string" where
  "join_path a b = (if a = [] \<or> last a = CHR ''/'' then a @ b else a @ ''/'' @ b)"

text \<open>
  \<open>find_site_packages\<close> (lines 69--81), a closure over \<open>parsers_dir\<close> and
  \<open>local_site_packages\<close>. It climbs from \<open>path\<close> until the parent is
  \<open>parsers_dir\<close> or holds a \<open>site-packages\<close> entry. The first argument is the
  number of calls still allowed; the climb from a path that is not below
  \<open>parsers_dir\<close> ends at \<open>/\<close>, whose parent is itself, and uses them up.
\<close>

fun find_site_packages ::
  "nat \<Rightarrow> (string \<Rightarrow> exn + string list) \<Rightarrow> string \<Rightarrow> string option \<Rightarrow> string \<Rightarrow>
   exn + string option" where
  "find_site_packages 0 listdir parsers_dir local_site_packages path = Inl RecursionError"
| "find_site_packages (Suc depth) listdir parsers_dir local_site_packages path =
     (let parent_dir = dirname path
      in if parent_dir = parsers_dir then Inr local_site_packages
         else
           (case listdir parent_dir of
              Inl e \<Rightarrow> Inl e
            | Inr names \<Rightarrow>
                if ''site-packages'' \<in> set names
                then Inr (Some (join_path parent_dir ''site-packages''))
                else find_site_packages depth listdir parsers_dir local_site_packages
                       parent_dir))"

text \<open>
  The body of the walk (lines 83--134) for one unit. \<open>dirs\<close> is
  \<open>(parsers_dir, original_dir)\<close>: the directory the units are loaded from and the
  one the caller named; they differ when the fallback of lines 53--63 staged a copy.
  The call of line 97 is outside the \<open>try\<close> of the import: its exception leaves the
  constructor. The path it returns only extends \<open>sys.path\<close> for the import, whose
  outcome is the unit's \<open>import_module\<close>.
\<close>

definition inspect_unit ::
  "os_env \<Rightarrow> pattern option \<Rightarrow> (string, framework) dict \<Rightarrow> string list \<Rightarrow>
   string \<times> string \<Rightarrow> string option \<Rightarrow> py_unit \<Rightarrow> discovery \<Rightarrow> exn + discovery" where
  "inspect_unit os block_regex fws not_py dirs local_site_packages u d =
     (if ispkg u then Inr d
      else if suffix ''.setup'' (mod_name u) then Inr d
      else if list_ex (\<lambda>np. sublist (last_component (mod_name u)) np) not_py then Inr d
      else
        (case find_site_packages (recursion_limit os) (os_listdir os) (fst dirs)
                local_site_packages (finder_path u) of
           Inl e \<Rightarrow> Inl e
         | Inr parser_site_packages \<Rightarrow>
             (case import_module u of
                Inl e \<Rightarrow> Inr d
              | Inr (module, classes) \<Rightarrow>
                  (let d1 = inspect_candidates block_regex fws (module # classes) d
                   in if snd dirs \<noteq> fst dirs
                      then Inr (d1\<lparr>yara_rules :=
                                   map (replace (fst dirs) (snd dirs)) (yara_rules d1)\<rparr>)
                      else Inr d1))))"

text \<open>\<^verbatim>\<open>for module_path, module_name, ispkg in pkgutil.walk_packages(...)\<close> (line 67)\<close>

fun walk_units ::
  "os_env \<Rightarrow> pattern option \<Rightarrow> (string, framework) dict \<Rightarrow> string list \<Rightarrow>
   string \<times> string \<Rightarrow> string option \<Rightarrow> py_unit list \<Rightarrow> discovery \<Rightarrow> exn + discovery" where
  "walk_units os block_regex fws not_py dirs local_site_packages [] d = Inr d"
| "walk_units os block_regex fws not_py dirs local_site_packages (u # us) d =
     (case inspect_unit os block_regex fws not_py dirs local_site_packages u d of
        Inl e \<Rightarrow> Inl e
      | Inr d' \<Rightarrow> walk_units os block_regex fws not_py dirs local_site_packages us d')"

text \<open>
  A plugin root as the constructor meets it: the directory the caller passed, the file
  names \<open>os.walk\<close> finds under it, the staging directory if the fallback of lines
  53--63 is taken (\<open>None\<close> when the package resolves under the requested directory),
  and the units of the walk. The root's package is taken to import (line 51) and, in
  the fallback, the copy to be made; \<open>sys.path\<close> is not modelled.
\<close>

record plugin_root =
  root_dir :: string
  files :: "string list"
  staging_dir :: "string option"
  units :: "py_unit list"

text \<open>
  \<^verbatim>\<open>{k.replace(parsers_dir, original_dir): v for k, v in self.parsers.items()}\<close>
  (line 143)
\<close>

definition rekey :: "string \<Rightarrow> string \<Rightarrow> (string, candidate) dict \<Rightarrow> (string, candidate) dict" where
  "rekey parsers_dir original_dir ps =
     fold (\<lambda>(k, v) acc. dict_set acc (replace parsers_dir original_dir k) v) ps []"

text \<open>
  The body of \<^verbatim>\<open>for parsers_dir in parsers_dirs\<close> (lines 32--144): the list of
  the files that are not Python (line 35), \<open>local_site_packages\<close> from the listing
  of the root (line 41), the blocklist regex (line 66), the walk, and the rewrite of
  the registry keys after a staged root.
\<close>

definition process_root ::
  "(string \<Rightarrow> exn + pattern) \<Rightarrow> os_env \<Rightarrow> string list \<Rightarrow> (string, framework) dict \<Rightarrow>
   plugin_root \<Rightarrow> discovery \<Rightarrow> exn + discovery" where
  "process_root regex_compile os parser_blocklist fws r d =
     (let not_py = filter (\<lambda>file. \<not> suffix ''py'' file \<and> \<not> suffix ''pyc'' file) (files r);
          original_dir = root_dir r;
          parsers_dir = (case staging_dir r of None \<Rightarrow> root_dir r | Some tmp \<Rightarrow> tmp)
      in case os_listdir os original_dir of
           Inl e \<Rightarrow> Inl e
         | Inr names \<Rightarrow>
             (let local_site_packages =
                    (if ''site-packages'' \<in> set names
                     then Some (join_path original_dir ''site-packages'') else None)
              in case compile_blocklist regex_compile parser_blocklist of
                   Inl e \<Rightarrow> Inl e
                 | Inr block_regex \<Rightarrow>
                     (case walk_units os block_regex fws not_py (parsers_dir, original_dir)
                             local_site_packages (units r) d of
                        Inl e \<Rightarrow> Inl e
                      | Inr d1 \<Rightarrow>
                          if original_dir \<noteq> parsers_dir
                          then Inr (d1\<lparr>parsers := rekey parsers_dir original_dir (parsers d1)\<rparr>)
                          else Inr d1)))"

fun process_roots ::
  "(string \<Rightarrow> exn + pattern) \<Rightarrow> os_env \<Rightarrow> string list \<Rightarrow> (string, framework) dict \<Rightarrow>
   plugin_root list \<Rightarrow> discovery \<Rightarrow> exn + discovery" where
  "process_roots regex_compile os parser_blocklist fws [] d = Inr d"
| "process_roots regex_compile os parser_blocklist fws (r # rs) d =
     (case process_root regex_compile os parser_blocklist fws r d of
        Inl e \<Rightarrow> Inl e
      | Inr d' \<Rightarrow> process_roots regex_compile os parser_blocklist fws rs d')"

text \<open>
  \<open>ConfigExtractor.__init__\<close>. \<open>regex_compile\<close> and \<open>yara_compile\<close> are the two
  libraries; \<open>fws\<close> is \<open>FRAMEWORK_LIBRARY_MAPPING\<close>, built from
  \<open>PARSER_FRAMEWORKS\<close> in that order. The rules are joined with a newline
  and compiled once, after the last root (line 146); a compile error is the
  constructor's.
\<close>

definition ConfigExtractor_init ::
  "(string \<Rightarrow> exn + pattern) \<Rightarrow> (string \<Rightarrow> exn + (sample \<Rightarrow> exn + yara_match list)) \<Rightarrow>
   os_env \<Rightarrow> (string, framework) dict \<Rightarrow> plugin_root list \<Rightarrow> string list \<Rightarrow> exn + extractor" where
  "ConfigExtractor_init regex_compile yara_compile os fws parsers_dirs parser_blocklist =
     (case process_roots regex_compile os parser_blocklist fws parsers_dirs
             \<lparr>parsers = [], standalone_parsers = [], yara_rules = [], yara_rule_names = []\<rparr> of
        Inl e \<Rightarrow> Inl e
      | Inr d \<Rightarrow>
          (case yara_compile (join [CHR 0x0A] (yara_rules d)) of
             Inl e \<Rightarrow> Inl e
           | Inr compiled \<Rightarrow>
               Inr \<lparr>parsers = parsers d, standalone_parsers = standalone_parsers d,
                    FRAMEWORK_LIBRARY_MAPPING = fws, yara = compiled\<rparr>))"

subsection \<open>Dispatch: \<open>run_parsers\<close> (lines 177--213)\<close>

text \<open>
  \<open>parsers_to_run\<close> is a \<open>defaultdict\<close> of \<open>defaultdict(list)\<close>: framework key to
  run batch. The framework key of a match is \<^verbatim>\<open>yara_match.meta.get('parser_framework')\<close>,
  which is \<open>None\<close> when the metadata lacks it.
  \<open>add_to_batch\<close> is \<^verbatim>\<open>parsers_to_run[fw][parser].extend(ms)\<close>; \<open>append\<close> is the
  case of one match.
\<close>

type_synonym batches = "(string option, batch) dict"

definition add_to_batch ::
  "batches \<Rightarrow> string option \<Rightarrow> candidate \<Rightarrow> yara_match list \<Rightarrow> batches" where
  "add_to_batch pr fw parser ms =
     (let b = (case dict_get pr fw of None \<Rightarrow> [] | Some b \<Rightarrow> b);
          l = (case dict_get b parser of None \<Rightarrow> [] | Some l \<Rightarrow> l)
      in dict_set pr fw (dict_set b parser (l @ ms)))"

text \<open>
  The loop over the matches (lines 184--195). The lookup
  \<^verbatim>\<open>self.parsers[parser_module]\<close> has no guard: a key that is not in the registry
  (\<open>None\<close> included) raises, and the exception leaves \<open>run_parsers\<close>.
  \<open>registry_lookup\<close> is that lookup, \<open>None\<close> standing for the \<open>KeyError\<close>.
\<close>

definition registry_lookup :: "(string, candidate) dict \<Rightarrow> string option \<Rightarrow> candidate option" where
  "registry_lookup ps parser_module =
     (case parser_module of None \<Rightarrow> None | Some k \<Rightarrow> dict_get ps k)"

fun match_loop ::
  "(string, candidate) dict \<Rightarrow> pattern option \<Rightarrow> yara_match list \<Rightarrow> batches \<Rightarrow> exn + batches" where
  "match_loop ps block_regex [] pr = Inr pr"
| "match_loop ps block_regex (yara_match # rest) pr =
     (let parser_module = dict_get (meta yara_match) ''parser_module'';
          parser_framework = dict_get (meta yara_match) ''parser_framework''
      in case registry_lookup ps parser_module of
           None \<Rightarrow> Inl (RegistryKeyError parser_module)
         | Some parser \<Rightarrow>
             if blocked block_regex (py_name parser) then match_loop ps block_regex rest pr
             else match_loop ps block_regex rest
                    (add_to_batch pr parser_framework parser [yara_match]))"

text \<open>The loop over the standalone parsers (lines 198--203).\<close>

definition standalone_loop ::
  "(string, candidate list) dict \<Rightarrow> pattern option \<Rightarrow> batches \<Rightarrow> batches" where
  "standalone_loop sp block_regex pr =
     fold (\<lambda>(parser_framework, parser_list) pr1.
             fold (\<lambda>parser pr2.
                     if blocked block_regex (py_name parser) then pr2
                     else add_to_batch pr2 (Some parser_framework) parser [])
               parser_list pr1)
       sp pr"

text \<open>
  The loop over \<open>parsers_to_run.items()\<close> (lines 205--211): the adapter's \<open>run\<close>,
  \<open>finalize\<close> on what it returned, and the merge of a non-empty result. The lookup of
  the adapter and the adapter's \<open>run\<close> have no handler.
\<close>

fun run_loop ::
  "(string, framework) dict \<Rightarrow> sample \<Rightarrow> (string option \<times> batch) list \<Rightarrow>
   (string, results) dict \<Rightarrow> exn + (string, results) dict" where
  "run_loop fws smp [] res = Inr res"
| "run_loop fws smp ((framework, parser_list) # rest) res =
     (if parser_list \<noteq> [] then
        (case (case framework of None \<Rightarrow> None | Some n \<Rightarrow> map_option (Pair n) (dict_get fws n)) of
           None \<Rightarrow> Inl (FrameworkKeyError framework)
         | Some (n, fw) \<Rightarrow>
             (case run fw smp parser_list of
                Inl e \<Rightarrow> Inl e
              | Inr result \<Rightarrow>
                  (let result' = finalize result
                   in if result' \<noteq> [] then run_loop fws smp rest (dict_set res n result')
                      else run_loop fws smp rest res)))
      else run_loop fws smp rest res)"

text \<open>
  The first two loops give \<open>parsers_to_run\<close>; \<open>run_parsers\<close> is the whole method. It
  takes \<open>self\<close> and returns it with the result: the source assigns to no field of
  \<open>self\<close>.
\<close>

definition parsers_to_run ::
  "(string \<Rightarrow> exn + pattern) \<Rightarrow> extractor \<Rightarrow> sample \<Rightarrow> string list \<Rightarrow> exn + batches" where
  "parsers_to_run regex_compile self smp parser_blocklist =
     (case compile_blocklist regex_compile parser_blocklist of
        Inl e \<Rightarrow> Inl e
      | Inr block_regex \<Rightarrow>
          (case yara self smp of
             Inl e \<Rightarrow> Inl e
           | Inr ms \<Rightarrow>
               (case match_loop (parsers self) block_regex ms [] of
                  Inl e \<Rightarrow> Inl e
                | Inr pr \<Rightarrow> Inr (standalone_loop (standalone_parsers self) block_regex pr))))"

definition run_parsers ::
  "(string \<Rightarrow> exn + pattern) \<Rightarrow> extractor \<Rightarrow> sample \<Rightarrow> string list \<Rightarrow>
   extractor \<times> (exn + (string, results) dict)" where
  "run_parsers regex_compile self smp parser_blocklist =
     (self,
      case parsers_to_run regex_compile self smp parser_blocklist of
        Inl e \<Rightarrow> Inl e
      | Inr pr \<Rightarrow> run_loop (FRAMEWORK_LIBRARY_MAPPING self) smp pr [])"

text \<open>Whether a parser is a key of the run batch of a framework.\<close>

definition in_batch :: "batches \<Rightarrow> string option \<Rightarrow> candidate \<Rightarrow> bool" where
  "in_batch pr fw parser =
     (case dict_get pr fw of None \<Rightarrow> False | Some b \<Rightarrow> parser \<in> set (dict_keys b))"

section \<open>Concrete inputs\<close>

text \<open>
  Inputs on which the definitions are evaluated. \<open>literal_regex\<close> is the \<open>regex\<close>
  library on patterns made of literal characters and \<open>|\<close> only: it matches at an offset
  when one of the alternatives is a prefix of the rest of the subject. \<open>no_rules\<close> is a
  compiled ruleset that matches nothing.
\<close>

fun split_on :: "char \<Rightarrow> string \<Rightarrow> string list" where
  "split_on sep [] = [[]]"
| "split_on sep (c # cs) =
     (if c = sep then [] # split_on sep cs
      else (case split_on sep cs of [] \<Rightarrow> [[c]] | w # ws \<Rightarrow> (c # w) # ws))"

definition literal_pattern :: "string list \<Rightarrow> pattern" where
  "literal_pattern alts = (\<lambda>s i. list_ex (\<lambda>alt. prefix alt (drop i s)) alts)"

definition literal_regex :: "string \<Rightarrow> exn + pattern" where
  "literal_regex src = Inr (literal_pattern (split_on CHR ''|'' src))"

definition no_rules :: "string \<Rightarrow> exn + (sample \<Rightarrow> exn + yara_match list)" where
  "no_rules src = Inr (\<lambda>smp. Inr [])"

definition demo_sample :: sample where
  "demo_sample = \<lparr>sample_path = ''/s'', sample_bytes = Inr ''MZ''\<rparr>"

text \<open>
  A class-like candidate: a name, the module that defines it, and what its
  \<open>extract_config\<close> does on every input.
\<close>

definition demo_parser :: "string \<Rightarrow> string \<Rightarrow> exn + raw \<Rightarrow> candidate" where
  "demo_parser name modname out =
     \<lparr>py_name = name, py_module = Some modname, extract_config = Some (\<lambda>data. out),
      AUTHOR = Some ''me'', DESCRIPTION = Some ''''\<rparr>"

definition good_parser :: candidate where
  "good_parser = demo_parser ''Good'' ''plugins.cape.one'' (Inr [(''key'', ''value'')])"

definition bad_parser :: candidate where
  "bad_parser = demo_parser ''Bad'' ''plugins.cape.two'' (Inl (OtherException ''boom''))"

definition twin_parser :: candidate where
  "twin_parser = demo_parser ''Twin'' ''plugins.cape.one'' (Inr [(''k'', ''v'')])"

text \<open>
  The CAPE adapter with the two inherited methods filled in: the display name is the
  \<open>__name__\<close>, and no rule is extracted, so that every claimed parser is standalone.
\<close>

definition demo_CAPE :: framework where
  "demo_CAPE = CAPE py_name (\<lambda>member names. (names, Inr []))"

text \<open>
  \<open>FRAMEWORK_LIBRARY_MAPPING\<close> in the order of \<open>PARSER_FRAMEWORKS\<close>. The MACO
  and MWCP adapters are not in the sources; \<open>declining_fw\<close> stands for them on
  candidates that are not of their dialect.
\<close>

definition declining_fw :: framework where
  "declining_fw =
     \<lparr>validate = (\<lambda>member. Inr False),
      extract_yara_from_module = (\<lambda>member names. (names, Inr [])),
      run = (\<lambda>smp b. Inr [])\<rparr>"

definition demo_fws :: "(string, framework) dict" where
  "demo_fws = [(''MACO'', declining_fw), (''MWCP'', declining_fw), (''CAPE'', demo_CAPE)]"


text \<open>
  A file system with the plugin root \<open>/plugins\<close>, whose package \<open>cape\<close> holds the
  modules \<open>one\<close> and \<open>two\<close>, and an interpreter that allows a thousand nested
  calls. \<open>demo_unit\<close> is a module of that package, with its module object and the
  classes found in it; \<open>flat_unit\<close> is a module that lies directly in the root.
\<close>

definition demo_os :: os_env where
  "demo_os =
     \<lparr>os_listdir = (\<lambda>p. if p = ''/'' then Inr [''plugins'']
                          else if p = ''/plugins'' then Inr [''cape'']
                          else if p = ''/plugins/cape''
                            then Inr [''__init__.py'', ''one.py'', ''two.py'']
                          else Inl (OSError ''No such file or directory'')),
      recursion_limit = 1000\<rparr>"

definition demo_unit :: "string \<Rightarrow> candidate list \<Rightarrow> py_unit" where
  "demo_unit name classes =
     \<lparr>mod_name = name, ispkg = False, finder_path = ''/plugins/cape'',
      import_module =
        Inr (\<lparr>py_name = name, py_module = None, extract_config = None, AUTHOR = None,
              DESCRIPTION = None\<rparr>, classes)\<rparr>"


definition cape_package :: py_unit where
  "cape_package =
     \<lparr>mod_name = ''plugins.cape'', ispkg = True, finder_path = ''/plugins'',
      import_module =
        Inr (\<lparr>py_name = ''plugins.cape'', py_module = None, extract_config = None,
              AUTHOR = None, DESCRIPTION = None\<rparr>, [])\<rparr>"

definition demo_root :: "py_unit list \<Rightarrow> plugin_root" where
  "demo_root us =
     \<lparr>root_dir = ''/plugins'', files = [''__init__.py'', ''one.py'', ''two.py''],
      staging_dir = None, units = cape_package # us\<rparr>"

text \<open>
  A constructed extractor with \<open>good_parser\<close> and \<open>bad_parser\<close> registered and
  standalone under CAPE, whose ruleset reports the given matches for every sample; a
  match names the module of the parser it belongs to.
\<close>

definition demo_extractor :: "yara_match list \<Rightarrow> extractor" where
  "demo_extractor ms =
     \<lparr>parsers = [(''plugins.cape.one'', good_parser), (''plugins.cape.two'', bad_parser)],
      standalone_parsers = [(''CAPE'', [good_parser, bad_parser])],
      FRAMEWORK_LIBRARY_MAPPING = demo_fws,
      yara = (\<lambda>smp. Inr ms)\<rparr>"

definition demo_match :: "string \<Rightarrow> yara_match" where
  "demo_match modname =
     \<lparr>meta = [(''parser_module'', modname), (''parser_framework'', ''CAPE''),
              (''parser_name'', ''rule'')]\<rparr>"

definition good_record :: result_record where
  "good_record =
     \<lparr>author = ''me'', description = '''',
      config = Some \<lparr>family = Some ''Good'', other = Some [(''key'', ''value'')],
                     http = None\<rparr>\<rparr>"

section \<open>Notions the properties of discovery are stated with\<close>

text \<open>
  A candidate is claimed when the \<open>validate\<close> of some adapter returns true for it. The
  key under which the loop of lines 113--130 registers a candidate: its \<open>__module__\<close>,
  if the candidate is claimed, its \<open>__name__\<close> is not blocked and it has a
  \<open>__module__\<close>.
\<close>

definition claimed :: "(string, framework) dict \<Rightarrow> candidate \<Rightarrow> bool" where
  "claimed fws member = list_ex (\<lambda>(fw_name, fw_class). validate fw_class member = Inr True) fws"

definition registered_key ::
  "pattern option \<Rightarrow> (string, framework) dict \<Rightarrow> candidate \<Rightarrow> string option" where
  "registered_key block_regex fws member =
     (if claimed fws member \<and> \<not> blocked block_regex (py_name member)
      then py_module member else None)"

text \<open>
  The candidates discovery inspects: those of the units that are not skipped (lines
  83--93) and whose import succeeds, in the order of the walk.
\<close>

definition unit_candidates :: "string list \<Rightarrow> py_unit \<Rightarrow> candidate list" where
  "unit_candidates not_py u =
     (if ispkg u \<or> suffix ''.setup'' (mod_name u) \<or>
         list_ex (\<lambda>np. sublist (last_component (mod_name u)) np) not_py
      then []
      else (case import_module u of Inl e \<Rightarrow> [] | Inr (module, classes) \<Rightarrow> module # classes))"

definition root_candidates :: "plugin_root \<Rightarrow> candidate list" where
  "root_candidates r =
     concat (map (unit_candidates
        (filter (\<lambda>file. \<not> suffix ''py'' file \<and> \<not> suffix ''pyc'' file) (files r))) (units r))"

definition candidates_of :: "plugin_root list \<Rightarrow> candidate list" where
  "candidates_of roots = concat (map root_candidates roots)"


text \<open>
  The identity under which a candidate is in the registry when the constructor returns:
  the key of line 119, rewritten by line 143 after the candidate's root and after every
  later root, where the root is staged. \<open>identities\<close> lists them for the candidates
  that the loop registers, root by root.
\<close>

definition rewrite_key :: "plugin_root \<Rightarrow> string \<Rightarrow> string" where
  "rewrite_key r k =
     (case staging_dir r of
        None \<Rightarrow> k
      | Some tmp \<Rightarrow> if root_dir r \<noteq> tmp then replace tmp (root_dir r) k else k)"

fun final_key :: "plugin_root list \<Rightarrow> string \<Rightarrow> string" where
  "final_key [] k = k"
| "final_key (r # rs) k = final_key rs (rewrite_key r k)"

fun identities ::
  "pattern option \<Rightarrow> (string, framework) dict \<Rightarrow> plugin_root list \<Rightarrow> string list" where
  "identities block_regex fws [] = []"
| "identities block_regex fws (r # rs) =
     map (final_key (r # rs))
       (List.map_filter (registered_key block_regex fws) (root_candidates r))
     @ identities block_regex fws rs"

text \<open>
  The exceptions that leave the loop over the roots, none of which is an adapter's: of
  the listing of the root (line 41), of the compilation of the blocklist (line 66) and
  of \<open>find_site_packages\<close> for a unit that is not skipped (line 97).
\<close>

definition unit_error :: "os_env \<Rightarrow> string list \<Rightarrow> string \<Rightarrow> string option \<Rightarrow> py_unit \<Rightarrow> exn option" where
  "unit_error os not_py parsers_dir local_site_packages u =
     (if ispkg u \<or> suffix ''.setup'' (mod_name u) \<or>
         list_ex (\<lambda>np. sublist (last_component (mod_name u)) np) not_py
      then None
      else (case find_site_packages (recursion_limit os) (os_listdir os) parsers_dir
                   local_site_packages (finder_path u) of
              Inl e \<Rightarrow> Some e
            | Inr p \<Rightarrow> None))"

fun first_error :: "('a \<Rightarrow> exn option) \<Rightarrow> 'a list \<Rightarrow> exn option" where
  "first_error f [] = None"
| "first_error f (x # xs) = (case f x of Some e \<Rightarrow> Some e | None \<Rightarrow> first_error f xs)"

definition root_error ::
  "(string \<Rightarrow> exn + pattern) \<Rightarrow> os_env \<Rightarrow> string list \<Rightarrow> plugin_root \<Rightarrow> exn option" where
  "root_error regex_compile os parser_blocklist r =
     (case os_listdir os (root_dir r) of
        Inl e \<Rightarrow> Some e
      | Inr names \<Rightarrow>
          (case compile_blocklist regex_compile parser_blocklist of
             Inl e \<Rightarrow> Some e
           | Inr block_regex \<Rightarrow>
               first_error
                 (unit_error os
                    (filter (\<lambda>file. \<not> suffix ''py'' file \<and> \<not> suffix ''pyc'' file) (files r))
                    (case staging_dir r of None \<Rightarrow> root_dir r | Some tmp \<Rightarrow> tmp)
                    (if ''site-packages'' \<in> set names
                     then Some (join_path (root_dir r) ''site-packages'') else None))
                 (units r)))"

definition discovery_error ::
  "(string \<Rightarrow> exn + pattern) \<Rightarrow> os_env \<Rightarrow> string list \<Rightarrow> plugin_root list \<Rightarrow> exn option" where
  "discovery_error regex_compile os parser_blocklist roots =
     first_error (root_error regex_compile os parser_blocklist) roots"

text \<open>Every entry of the registry is stored under the \<open>__module__\<close> of its value.\<close>

definition keyed_by_module :: "'a registry_scheme \<Rightarrow> bool" where
  "keyed_by_module reg = list_all (\<lambda>(k, member). py_module member = Some k) (parsers reg)"


definition interior_parser :: candidate where
  "interior_parser = demo_parser ''NotEvil'' ''Evil.mod'' (Inr [(''k'', ''v'')])"

definition module_one :: candidate where
  "module_one =
     \<lparr>py_name = ''plugins.cape.one'', py_module = None, extract_config = None, AUTHOR = None,
      DESCRIPTION = None\<rparr>"

definition twin_roots :: "plugin_root list" where
  "twin_roots = [demo_root [demo_unit ''plugins.cape.one'' [good_parser, twin_parser]]]"

text \<open>
  No candidate held by a registry (as a registered parser or as a standalone parser) has
  a name the given blocklist matches.
\<close>

definition registry_unblocked :: "pattern option \<Rightarrow> 'a registry_scheme \<Rightarrow> bool" where
  "registry_unblocked block_regex reg =
     (list_all (\<lambda>(k, member). \<not> blocked block_regex (py_name member)) (parsers reg) \<and>
      list_all (\<lambda>(fw_name, l). list_all (\<lambda>member. \<not> blocked block_regex (py_name member)) l)
        (standalone_parsers reg))"

definition demo_roots :: "plugin_root list" where
  "demo_roots =
     [demo_root [demo_unit ''plugins.cape.one'' [good_parser], demo_unit ''plugins.cape.two'' [bad_parser]]]"

definition module_two :: candidate where
  "module_two =
     \<lparr>py_name = ''plugins.cape.two'', py_module = None, extract_config = None, AUTHOR = None,
      DESCRIPTION = None\<rparr>"


definition empty_discovery :: discovery where
  "empty_discovery =
     \<lparr>parsers = [], standalone_parsers = [], yara_rules = [], yara_rule_names = []\<rparr>"



text \<open>
  A CAPE adapter whose rule extraction gives one rule per parser, and a ruleset engine
  for it: the ruleset compiled from the rule of \<open>Good\<close> matches every sample, and the
  match carries the module of that parser as \<open>parser_module\<close>.
\<close>

definition rule_CAPE :: framework where
  "rule_CAPE =
     CAPE py_name (\<lambda>member names. (names @ [py_name member], Inr [''rule '' @ py_name member]))"

definition rule_fws :: "(string, framework) dict" where
  "rule_fws = [(''MACO'', declining_fw), (''MWCP'', declining_fw), (''CAPE'', rule_CAPE)]"

definition demo_yara :: "string \<Rightarrow> exn + (sample \<Rightarrow> exn + yara_match list)" where
  "demo_yara src =
     Inr (\<lambda>smp. Inr (if src = ''rule Good'' then [demo_match ''plugins.cape.one''] else []))"

definition good_roots :: "plugin_root list" where
  "good_roots = [demo_root [demo_unit ''plugins.cape.one'' [good_parser]]]"

text \<open>
  What the constructor returns on \<open>good_roots\<close> with that adapter and that engine:
  \<open>Good\<close> is registered and its rule compiled.
\<close>

definition rule_extractor :: extractor where
  "rule_extractor =
     \<lparr>parsers = [(''plugins.cape.one'', good_parser)], standalone_parsers = [],
      FRAMEWORK_LIBRARY_MAPPING = rule_fws,
      yara = (\<lambda>smp. Inr [demo_match ''plugins.cape.one''])\<rparr>"

text \<open>
  Every match carries as \<open>parser_module\<close> the identity of a parser that discovery
  registered: the rules were extracted from registered parsers.
\<close>

definition rules_of_registered ::
  "pattern option \<Rightarrow> (string, framework) dict \<Rightarrow> plugin_root list \<Rightarrow> yara_match list \<Rightarrow> bool" where
  "rules_of_registered block_regex fws roots ms =
     list_all (\<lambda>m. list_ex (\<lambda>k. dict_get (meta m) ''parser_module'' = Some k)
                     (identities block_regex fws roots)) ms"


section \<open>Properties of \<open>finalize\<close>\<close>

lemma finalize_conn_protocol:
  "protocol (finalize_conn nc) = Some (case protocol nc of None \<Rightarrow> ''http'' | Some q \<Rightarrow> q)"
  by (simp add: finalize_conn_def Let_def split: option.split)

lemma finalize_conn_uri:
  "uri (finalize_conn nc) =
     (case uri nc of
        None \<Rightarrow> None
      | Some u \<Rightarrow>
          (let p = (case protocol nc of None \<Rightarrow> ''http'' | Some q \<Rightarrow> q)
           in if u \<noteq> [] \<and> \<not> prefix p u then Some (p @ ''://'' @ u) else Some u))"
  by (simp add: finalize_conn_def Let_def split: option.split)

lemma finalize_conn_idem: "finalize_conn (finalize_conn nc) = finalize_conn nc"
  by (simp add: finalize_conn_def Let_def split: option.split)

lemma finalize_config_idem: "finalize_config (finalize_config c) = finalize_config c"
  by (simp add: finalize_config_def finalize_conn_idem split: option.split)

lemma finalize_record_idem: "finalize_record (finalize_record r) = finalize_record r"
  by (simp add: finalize_record_def finalize_config_idem split: option.split)

lemma finalize_idem: "finalize (finalize rs) = finalize rs"
  by (induction rs) (auto simp: finalize_def finalize_record_idem)

lemma dict_get_finalize:
  "dict_get (finalize rs) name = map_option finalize_record (dict_get rs name)"
  by (induction rs) (auto simp: finalize_def dict_get_def)

text \<open>
  C2. \<open>finalize\<close> is idempotent: on every mapping of result records a second application
  changes nothing, because a single entry is already a fixed point after the first one
  (a uri rewritten to \<open>protocol://uri\<close> starts with its protocol and is not prefixed
  again).
\<close>

theorem finalize_idempotent:
  "finalize (finalize rs) = finalize rs \<and>
   finalize_conn (finalize_conn nc) = finalize_conn nc \<and>
   finalize_conn (nc\<lparr>protocol := Some p, uri := Some (p @ ''://'' @ u)\<rparr>)
     = nc\<lparr>protocol := Some p, uri := Some (p @ ''://'' @ u)\<rparr>"
  by (simp add: finalize_idem finalize_conn_idem) (simp add: finalize_conn_def)

text \<open>
  C5, as stated, fails for an entry whose uri is the empty string: the empty string does
  not start with \<open>http\<close>, and \<open>finalize\<close> leaves it as it is, since the guard of the
  rewrite is \<^verbatim>\<open>if uri and not uri.startswith(...)\<close>.
\<close>

theorem finalize_empty_uri_counterexample:
  "\<not> prefix ''http'' '''' \<and>
   finalize [(''p'', \<lparr>author = ''a'', description = ''d'',
       config = Some \<lparr>family = None, other = None,
         http = Some [\<lparr>protocol = None, uri = Some ''''\<rparr>]\<rparr>\<rparr>)]
   = [(''p'', \<lparr>author = ''a'', description = ''d'',
       config = Some \<lparr>family = None, other = None,
         http = Some [\<lparr>protocol = Some ''http'', uri = Some ''''\<rparr>]\<rparr>\<rparr>)] \<and>
   uri (finalize_conn \<lparr>protocol = None, uri = Some ''''\<rparr>) \<noteq> Some (''http'' @ ''://'' @ '''')"
  by (simp add: finalize_def finalize_record_def finalize_config_def finalize_conn_def)

text \<open>
  C5, amended. For every entry of the \<open>config.http\<close> list of every record of the
  mapping, \<open>finalize\<close> sets the protocol to \<open>http\<close> when it is missing and keeps it
  otherwise; a uri that is a non-empty string not starting with that protocol becomes
  \<open>protocol://uri\<close>; a uri that is missing, empty or already starts with the protocol
  is kept.
\<close>

theorem finalize_http_entry:
  assumes "dict_get rs name = Some r" and "config r = Some c" and "http c = Some ncs"
    and "i < length ncs"
  shows "\<exists>r' c' ncs'.
     dict_get (finalize rs) name = Some r' \<and> config r' = Some c' \<and> http c' = Some ncs' \<and>
     length ncs' = length ncs \<and>
     protocol (ncs' ! i) = Some (case protocol (ncs ! i) of None \<Rightarrow> ''http'' | Some q \<Rightarrow> q) \<and>
     uri (ncs' ! i) =
       (case uri (ncs ! i) of
          None \<Rightarrow> None
        | Some u \<Rightarrow>
            (let p = (case protocol (ncs ! i) of None \<Rightarrow> ''http'' | Some q \<Rightarrow> q)
             in if u \<noteq> [] \<and> \<not> prefix p u then Some (p @ ''://'' @ u) else Some u))"
proof -
  have "dict_get (finalize rs) name = Some (finalize_record r)"
    using assms(1) by (simp add: dict_get_finalize)
  moreover have "config (finalize_record r) = Some (finalize_config c)"
    using assms(2) by (simp add: finalize_record_def)
  moreover have "http (finalize_config c) = Some (map finalize_conn ncs)"
    using assms(3) by (simp add: finalize_config_def)
  moreover have "map finalize_conn ncs ! i = finalize_conn (ncs ! i)"
    using assms(4) by simp
  ultimately show ?thesis
    by (simp add: finalize_conn_protocol finalize_conn_uri)
qed

theorem finalize_http_entry_witness:
  "\<exists>r' c' ncs'.
     dict_get (finalize [(''p'', \<lparr>author = ''a'', description = ''d'',
         config = Some \<lparr>family = None, other = None,
           http = Some [\<lparr>protocol = None, uri = Some ''1.2.3.4/c2''\<rparr>]\<rparr>\<rparr>)]) ''p'' = Some r' \<and>
     config r' = Some c' \<and> http c' = Some ncs' \<and>
     protocol (ncs' ! 0) = Some ''http'' \<and> uri (ncs' ! 0) = Some ''http://1.2.3.4/c2''"
  using finalize_http_entry [of "[(''p'', \<lparr>author = ''a'', description = ''d'',
         config = Some \<lparr>family = None, other = None,
           http = Some [\<lparr>protocol = None, uri = Some ''1.2.3.4/c2''\<rparr>]\<rparr>\<rparr>)]" "''p''"
      "\<lparr>author = ''a'', description = ''d'',
         config = Some \<lparr>family = None, other = None,
           http = Some [\<lparr>protocol = None, uri = Some ''1.2.3.4/c2''\<rparr>]\<rparr>\<rparr>"
      "\<lparr>family = None, other = None,
           http = Some [\<lparr>protocol = None, uri = Some ''1.2.3.4/c2''\<rparr>]\<rparr>"
      "[\<lparr>protocol = None, uri = Some ''1.2.3.4/c2''\<rparr>]" 0]
  by (simp add: dict_get_def) blast

section \<open>Dicts\<close>

lemma dict_get_dict_set:
  "dict_get (dict_set d k v) k' = (if k' = k then Some v else dict_get d k')"
  by (induction d) (auto simp: dict_get_def)

lemma dict_keys_dict_set: "set (dict_keys (dict_set d k v)) = insert k (set (dict_keys d))"
  by (induction d) (auto simp: dict_keys_def rev_image_eqI split: if_splits)

lemma dict_keys_Nil: "dict_keys [] = []"
  by (simp add: dict_keys_def)

lemma distinct_dict_set:
  "distinct (dict_keys d) \<Longrightarrow> distinct (dict_keys (dict_set d k v))"
proof (induction d)
  case Nil
  then show ?case by (simp add: dict_keys_def)
next
  case (Cons a d)
  obtain k' v' where a: "a = (k', v')" by (cases a)
  have "k' \<notin> set (dict_keys (dict_set d k v))" if "k' \<noteq> k"
    using Cons.prems that by (simp add: dict_keys_dict_set a) (simp add: dict_keys_def)
  with Cons show ?case
    by (auto simp: a dict_keys_def)
qed

lemma set_dict_set: "set (dict_set d k v) \<subseteq> insert (k, v) (set d)"
  by (induction d) (auto split: if_splits)

lemma dict_get_mem: "distinct (dict_keys d) \<Longrightarrow> (k, v) \<in> set d \<Longrightarrow> dict_get d k = Some v"
  by (simp add: dict_get_def dict_keys_def)

lemma dict_get_Some_mem: "dict_get d k = Some v \<Longrightarrow> (k, v) \<in> set d"
  by (simp add: dict_get_def map_of_SomeD)

lemma dict_get_None_iff: "dict_get d k = None \<longleftrightarrow> k \<notin> set (dict_keys d)"
  by (simp add: dict_get_def dict_keys_def map_of_eq_None_iff)

section \<open>\<open>CAPE.run\<close> isolates the failure of a parser\<close>

lemma CAPE_run_loop_append:
  "CAPE_run_loop gn smp (b1 @ b2) res = CAPE_run_loop gn smp b2 (CAPE_run_loop gn smp b1 res)"
  by (induction b1 arbitrary: res) (auto simp: Let_def split: sum.splits option.splits)

lemma CAPE_run_loop_other:
  "name \<notin> gn ` fst ` set b \<Longrightarrow>
   dict_get (CAPE_run_loop gn smp b res) name = dict_get res name"
  by (induction b arbitrary: res)
    (auto simp: Let_def dict_get_dict_set split: sum.splits option.splits)

lemma CAPE_run_loop_record:
  "distinct (map (\<lambda>x. gn (fst x)) b) \<Longrightarrow> (q, m) \<in> set b \<Longrightarrow>
   CAPE_run_parser (gn q) smp q = Inr (Some r) \<Longrightarrow>
   dict_get (CAPE_run_loop gn smp b res) (gn q) = Some r"
proof (induction b arbitrary: res)
  case Nil
  then show ?case by simp
next
  case (Cons a b)
  obtain p ms where a: "a = (p, ms)" by (cases a)
  show ?case
  proof (cases "(q, m) = a")
    case True
    then have qp: "q = p" using a by simp
    have "gn p \<notin> gn ` fst ` set b" using Cons.prems(1) a by (auto simp: image_image)
    then have "dict_get (CAPE_run_loop gn smp b (dict_set res (gn p) r)) (gn p)
        = dict_get (dict_set res (gn p) r) (gn p)"
      by (rule CAPE_run_loop_other)
    then show ?thesis using Cons.prems(3) qp a by (simp add: dict_get_dict_set)
  next
    case False
    then have "(q, m) \<in> set b" using Cons.prems(2) by simp
    moreover have "distinct (map (\<lambda>x. gn (fst x)) b)" using Cons.prems(1) by simp
    ultimately have "dict_get (CAPE_run_loop gn smp b res') (gn q) = Some r" for res'
      using Cons.IH Cons.prems(3) by blast
    then show ?thesis
      by (simp add: a Let_def split: sum.splits option.splits)
  qed
qed

text \<open>
  C6. If a parser of a CAPE run batch raises (in reading the sample, in
  \<open>extract_config\<close> or in building its record), \<open>CAPE.run\<close> still returns, and it
  returns what it returns for the batch without that parser: the parser contributes no
  record, and every other parser is invoked and its record kept. With the display names
  of the batch pairwise distinct, the failed parser's name is not a key of the result
  and every other parser that produced a record has it under its name. The loop of
  \<open>run_parsers\<close> over the batches takes that result and goes on with the next batch.
\<close>

theorem CAPE_run_isolates_failure:
  assumes "CAPE_run_parser (get_name p) smp p = Inl e"
  shows "CAPE_run get_name smp (b1 @ (p, ms) # b2) = CAPE_run get_name smp (b1 @ b2) \<and>
    run (CAPE get_name extract) smp (b1 @ (p, ms) # b2)
      = Inr (CAPE_run_loop get_name smp (b1 @ b2) []) \<and>
    (distinct (map (\<lambda>x. get_name (fst x)) (b1 @ (p, ms) # b2)) \<longrightarrow>
       dict_get (CAPE_run_loop get_name smp (b1 @ (p, ms) # b2) []) (get_name p) = None \<and>
       (\<forall>q m r. (q, m) \<in> set (b1 @ b2) \<longrightarrow>
          CAPE_run_parser (get_name q) smp q = Inr (Some r) \<longrightarrow>
          dict_get (CAPE_run_loop get_name smp (b1 @ (p, ms) # b2) []) (get_name q) = Some r)) \<and>
    (dict_get fws n = Some (CAPE get_name extract) \<longrightarrow>
       run_loop fws smp ((Some n, b1 @ (p, ms) # b2) # rest) res
         = (let result = finalize (CAPE_run_loop get_name smp (b1 @ b2) [])
            in if result \<noteq> [] then run_loop fws smp rest (dict_set res n result)
               else run_loop fws smp rest res))"
proof -
  have skip: "CAPE_run_loop get_name smp (b1 @ (p, ms) # b2) res
      = CAPE_run_loop get_name smp (b1 @ b2) res" for res
    using assms by (simp add: CAPE_run_loop_append Let_def)
  have "dict_get (CAPE_run_loop get_name smp (b1 @ b2) []) (get_name p) = None"
    if "distinct (map (\<lambda>x. get_name (fst x)) (b1 @ (p, ms) # b2))"
  proof -
    have "get_name p \<notin> get_name ` fst ` set (b1 @ b2)"
      using that by (auto simp: image_image)
    then show ?thesis
      by (simp add: CAPE_run_loop_other) (simp add: dict_get_def)
  qed
  moreover have "dict_get (CAPE_run_loop get_name smp (b1 @ b2) []) (get_name q) = Some r"
    if "distinct (map (\<lambda>x. get_name (fst x)) (b1 @ (p, ms) # b2))" and "(q, m) \<in> set (b1 @ b2)"
      and "CAPE_run_parser (get_name q) smp q = Inr (Some r)" for q m r
  proof -
    have "distinct (map (\<lambda>x. get_name (fst x)) (b1 @ b2))" using that(1) by simp
    then show ?thesis using that(2,3) by (rule CAPE_run_loop_record)
  qed
  moreover have "run_loop fws smp ((Some n, b1 @ (p, ms) # b2) # rest) res
      = (let result = finalize (CAPE_run_loop get_name smp (b1 @ b2) [])
         in if result \<noteq> [] then run_loop fws smp rest (dict_set res n result)
            else run_loop fws smp rest res)"
    if "dict_get fws n = Some (CAPE get_name extract)"
    using that by (simp add: skip CAPE_run_def CAPE_def Let_def)
  ultimately show ?thesis
    by (simp add: skip CAPE_run_def CAPE_def)
qed

theorem CAPE_run_isolates_failure_witness:
  "CAPE_run_parser (py_name bad_parser) demo_sample bad_parser = Inl (OtherException ''boom'') \<and>
   CAPE_run py_name demo_sample [(bad_parser, []), (good_parser, [])]
     = CAPE_run py_name demo_sample [(good_parser, [])] \<and>
   run demo_CAPE demo_sample [(bad_parser, []), (good_parser, [])]
     = Inr [(''Good'', \<lparr>author = ''me'', description = '''',
          config = Some \<lparr>family = Some ''Good'', other = Some [(''key'', ''value'')],
            http = None\<rparr>\<rparr>)] \<and>
   distinct (map (\<lambda>x. py_name (fst x)) [(bad_parser, []), (good_parser, [])]) \<and>
   dict_get (CAPE_run_loop py_name demo_sample [(bad_parser, []), (good_parser, [])] [])
     (py_name bad_parser) = None \<and>
   dict_get (CAPE_run_loop py_name demo_sample [(bad_parser, []), (good_parser, [])] [])
     (py_name good_parser) = Some good_record \<and>
   run_loop demo_fws demo_sample [(Some ''CAPE'', [(bad_parser, []), (good_parser, [])])] []
     = Inr [(''CAPE'', [(''Good'', good_record)])]"
proof -
  have e: "CAPE_run_parser (py_name bad_parser) demo_sample bad_parser
      = Inl (OtherException ''boom'')"
    by (simp add: CAPE_run_parser_def bad_parser_def demo_parser_def demo_sample_def)
  have g: "CAPE_run_loop py_name demo_sample [(good_parser, [])] []
      = [(''Good'', \<lparr>author = ''me'', description = '''',
          config = Some \<lparr>family = Some ''Good'', other = Some [(''key'', ''value'')],
            http = None\<rparr>\<rparr>)]"
    by (simp add: CAPE_run_parser_def good_parser_def demo_parser_def demo_sample_def Let_def)
  have n: "distinct (map (\<lambda>x. py_name (fst x)) [(bad_parser, []), (good_parser, [])])"
    by (simp add: bad_parser_def good_parser_def demo_parser_def)
  have r: "CAPE_run_parser (py_name good_parser) demo_sample good_parser
      = Inr (Some good_record)"
    by (simp add: CAPE_run_parser_def good_parser_def demo_parser_def demo_sample_def
        good_record_def)
  note T = CAPE_run_isolates_failure [of py_name bad_parser demo_sample
      "OtherException ''boom''" "[]" "[]" "[(good_parser, [])]"
      "\<lambda>member names. (names, Inr [])" demo_fws "''CAPE''" "[]" "[]", OF e]
  have 1: "CAPE_run py_name demo_sample [(bad_parser, []), (good_parser, [])]
      = CAPE_run py_name demo_sample [(good_parser, [])]"
    using T [THEN conjunct1] by simp
  have 2: "run demo_CAPE demo_sample [(bad_parser, []), (good_parser, [])]
      = Inr (CAPE_run_loop py_name demo_sample [(good_parser, [])] [])"
    using T [THEN conjunct2, THEN conjunct1] by (simp add: demo_CAPE_def)
  have others: "dict_get
        (CAPE_run_loop py_name demo_sample ([] @ (bad_parser, []) # [(good_parser, [])]) [])
        (py_name bad_parser) = None \<and>
      (\<forall>q m r. (q, m) \<in> set ([] @ [(good_parser, [])]) \<longrightarrow>
         CAPE_run_parser (py_name q) demo_sample q = Inr (Some r) \<longrightarrow>
         dict_get
           (CAPE_run_loop py_name demo_sample ([] @ (bad_parser, []) # [(good_parser, [])]) [])
           (py_name q) = Some r)"
    using T [THEN conjunct2, THEN conjunct2, THEN conjunct1] n by simp
  have 3: "dict_get (CAPE_run_loop py_name demo_sample [(bad_parser, []), (good_parser, [])] [])
      (py_name bad_parser) = None"
    using others [THEN conjunct1] by simp
  have 4: "dict_get (CAPE_run_loop py_name demo_sample [(bad_parser, []), (good_parser, [])] [])
      (py_name good_parser) = Some good_record"
    using others [THEN conjunct2, rule_format, of good_parser "[]" good_record] r by simp
  have "dict_get demo_fws ''CAPE'' = Some (CAPE py_name (\<lambda>member names. (names, Inr [])))"
    by (simp add: demo_fws_def demo_CAPE_def dict_get_def)
  then have 5: "run_loop demo_fws demo_sample
      [(Some ''CAPE'', [(bad_parser, []), (good_parser, [])])] []
      = Inr [(''CAPE'', [(''Good'', good_record)])]"
    using T [THEN conjunct2, THEN conjunct2, THEN conjunct2] g
    by (simp add: good_record_def finalize_def finalize_record_def finalize_config_def)
  show ?thesis using e 1 2 3 4 5 g n by simp
qed

section \<open>The run batches of \<open>run_parsers\<close>\<close>

lemma in_batch_Nil: "\<not> in_batch [] fw q"
  by (simp add: in_batch_def dict_get_def)

lemma in_batch_add_to_batch:
  "in_batch (add_to_batch pr fw p ms) fw' q \<longleftrightarrow> (fw' = fw \<and> q = p) \<or> in_batch pr fw' q"
  by (auto simp: in_batch_def add_to_batch_def Let_def dict_get_dict_set dict_keys_dict_set
      dict_keys_Nil split: option.splits)

lemma distinct_add_to_batch:
  "distinct (dict_keys pr) \<Longrightarrow> distinct (dict_keys (add_to_batch pr fw p ms))"
  by (simp add: add_to_batch_def Let_def distinct_dict_set)

lemma match_loop_in_batch:
  "match_loop ps br ms pr = Inr pr' \<Longrightarrow>
   in_batch pr' fw q \<longleftrightarrow>
     in_batch pr fw q \<or>
     (\<exists>m \<in> set ms. registry_lookup ps (dict_get (meta m) ''parser_module'') = Some q \<and>
        dict_get (meta m) ''parser_framework'' = fw \<and> \<not> blocked br (py_name q))"
proof (induction ms arbitrary: pr)
  case Nil
  then show ?case by simp
next
  case (Cons m ms)
  obtain p where p: "registry_lookup ps (dict_get (meta m) ''parser_module'') = Some p"
    using Cons.prems by (cases "registry_lookup ps (dict_get (meta m) ''parser_module'')") auto
  show ?case
  proof (cases "blocked br (py_name p)")
    case True
    then have "match_loop ps br ms pr = Inr pr'" using Cons.prems p by simp
    from Cons.IH [OF this] show ?thesis using True p by auto
  next
    case False
    then have "match_loop ps br ms
        (add_to_batch pr (dict_get (meta m) ''parser_framework'') p [m]) = Inr pr'"
      using Cons.prems p by simp
    from Cons.IH [OF this] show ?thesis using False p
      by (auto simp: in_batch_add_to_batch)
  qed
qed

lemma match_loop_distinct:
  "match_loop ps br ms pr = Inr pr' \<Longrightarrow> distinct (dict_keys pr) \<Longrightarrow> distinct (dict_keys pr')"
  by (induction ms arbitrary: pr)
    (auto simp: Let_def distinct_add_to_batch split: option.splits if_splits)

lemma match_loop_Inl:
  "match_loop ps br ms pr = Inl e \<Longrightarrow>
   \<exists>m \<in> set ms. registry_lookup ps (dict_get (meta m) ''parser_module'') = None \<and>
     e = RegistryKeyError (dict_get (meta m) ''parser_module'')"
  by (induction ms arbitrary: pr) (auto simp: Let_def split: option.splits if_splits)

lemma match_loop_unresolved:
  "m \<in> set ms \<Longrightarrow> registry_lookup ps (dict_get (meta m) ''parser_module'') = None \<Longrightarrow>
   \<exists>e. match_loop ps br ms pr = Inl e"
  by (induction ms arbitrary: pr) (auto simp: Let_def split: option.splits)

lemma match_loop_resolved:
  "(\<And>m. m \<in> set ms \<Longrightarrow> registry_lookup ps (dict_get (meta m) ''parser_module'') \<noteq> None) \<Longrightarrow>
   \<exists>pr'. match_loop ps br ms pr = Inr pr'"
  by (induction ms arbitrary: pr) (auto simp: Let_def split: option.splits)

lemma match_loop_same_outcome:
  "(\<exists>pr'. match_loop ps br ms pr = Inr pr') \<longleftrightarrow> (\<exists>pr'. match_loop ps br' ms pr0 = Inr pr')"
proof -
  have "(\<exists>pr'. match_loop ps b ms q = Inr pr') \<longleftrightarrow>
      (\<forall>m \<in> set ms. registry_lookup ps (dict_get (meta m) ''parser_module'') \<noteq> None)" for b q
  proof
    assume "\<exists>pr'. match_loop ps b ms q = Inr pr'"
    then show "\<forall>m \<in> set ms. registry_lookup ps (dict_get (meta m) ''parser_module'') \<noteq> None"
      using match_loop_unresolved [of _ ms ps b q] by fastforce
  next
    assume "\<forall>m \<in> set ms. registry_lookup ps (dict_get (meta m) ''parser_module'') \<noteq> None"
    then show "\<exists>pr'. match_loop ps b ms q = Inr pr'"
      using match_loop_resolved [of ms ps b q] by blast
  qed
  then show ?thesis by simp
qed

lemma inner_standalone_in_batch:
  "in_batch (fold (\<lambda>parser pr2. if blocked br (py_name parser) then pr2
                      else add_to_batch pr2 (Some n) parser []) l pr) fw q \<longleftrightarrow>
     in_batch pr fw q \<or> (fw = Some n \<and> q \<in> set l \<and> \<not> blocked br (py_name q))"
  by (induction l arbitrary: pr) (auto simp: in_batch_add_to_batch)

lemma inner_standalone_distinct:
  "distinct (dict_keys pr) \<Longrightarrow>
   distinct (dict_keys (fold (\<lambda>parser pr2. if blocked br (py_name parser) then pr2
                      else add_to_batch pr2 (Some n) parser []) l pr))"
  by (induction l arbitrary: pr) (auto simp: distinct_add_to_batch)

lemma standalone_loop_in_batch:
  "in_batch (standalone_loop sp br pr) fw q \<longleftrightarrow>
     in_batch pr fw q \<or>
     (\<exists>n l. fw = Some n \<and> (n, l) \<in> set sp \<and> q \<in> set l \<and> \<not> blocked br (py_name q))"
proof (induction sp arbitrary: pr)
  case Nil
  then show ?case by (simp add: standalone_loop_def)
next
  case (Cons a sp)
  obtain n l where a: "a = (n, l)" by (cases a)
  have step: "standalone_loop (a # sp) br pr =
      standalone_loop sp br (fold (\<lambda>parser pr2. if blocked br (py_name parser) then pr2
                      else add_to_batch pr2 (Some n) parser []) l pr)"
    by (simp add: standalone_loop_def a)
  show ?case
    unfolding step Cons.IH inner_standalone_in_batch using a by auto
qed

lemma standalone_loop_distinct:
  "distinct (dict_keys pr) \<Longrightarrow> distinct (dict_keys (standalone_loop sp br pr))"
proof (induction sp arbitrary: pr)
  case Nil
  then show ?case by (simp add: standalone_loop_def)
next
  case (Cons a sp)
  obtain n l where a: "a = (n, l)" by (cases a)
  have step: "standalone_loop (a # sp) br pr =
      standalone_loop sp br (fold (\<lambda>parser pr2. if blocked br (py_name parser) then pr2
                      else add_to_batch pr2 (Some n) parser []) l pr)"
    by (simp add: standalone_loop_def a)
  show ?case
    unfolding step using Cons.prems by (intro Cons.IH inner_standalone_distinct)
qed

text \<open>
  The parsers offered to the adapters by one call: the unblocked parsers that a match
  resolves to, under the match's framework key, and the unblocked standalone parsers.
\<close>

lemma parsers_to_run_in_batch:
  assumes "compile_blocklist rc blk = Inr br" and "yara self smp = Inr ms"
    and "parsers_to_run rc self smp blk = Inr pr"
  shows "in_batch pr fw q \<longleftrightarrow>
     \<not> blocked br (py_name q) \<and>
     ((\<exists>m \<in> set ms. registry_lookup (parsers self) (dict_get (meta m) ''parser_module'') = Some q \<and>
         dict_get (meta m) ''parser_framework'' = fw) \<or>
      (\<exists>n l. fw = Some n \<and> (n, l) \<in> set (standalone_parsers self) \<and> q \<in> set l))"
proof -
  obtain pr1 where 1: "match_loop (parsers self) br ms [] = Inr pr1"
    and 2: "pr = standalone_loop (standalone_parsers self) br pr1"
    using assms by (auto simp: parsers_to_run_def split: sum.splits)
  show ?thesis
    unfolding 2 standalone_loop_in_batch match_loop_in_batch [OF 1]
    by (auto simp: in_batch_Nil)
qed

lemma parsers_to_run_distinct:
  assumes "parsers_to_run rc self smp blk = Inr pr"
  shows "distinct (dict_keys pr)"
proof -
  obtain br ms pr1 where 1: "match_loop (parsers self) br ms [] = Inr pr1"
    and 2: "pr = standalone_loop (standalone_parsers self) br pr1"
    using assms by (auto simp: parsers_to_run_def split: sum.splits)
  have "distinct (dict_keys pr1)"
    using match_loop_distinct [OF 1] by (simp add: dict_keys_def)
  then show ?thesis unfolding 2 by (rule standalone_loop_distinct)
qed

section \<open>The result of \<open>run_parsers\<close>\<close>

lemma finalize_Nil_iff: "finalize raw = [] \<longleftrightarrow> raw = []"
  by (simp add: finalize_def)

lemma run_loop_key:
  "run_loop fws smp pr res = Inr res' \<Longrightarrow> dict_get res' n = Some r \<Longrightarrow>
   dict_get res n = Some r \<or>
   (\<exists>b fw raw. (Some n, b) \<in> set pr \<and> b \<noteq> [] \<and> dict_get fws n = Some fw \<and>
      run fw smp b = Inr raw \<and> raw \<noteq> [] \<and> r = finalize raw)"
proof (induction pr arbitrary: res)
  case Nil
  then show ?case by simp
next
  case (Cons a pr)
  obtain framework b where a: "a = (framework, b)" by (cases a)
  show ?case
  proof (cases "b = []")
    case True
    then have "run_loop fws smp pr res = Inr res'" using Cons.prems(1) a by simp
    from Cons.IH [OF this Cons.prems(2)] show ?thesis by auto
  next
    case False
    then obtain k fw raw where k: "framework = Some k" and fw: "dict_get fws k = Some fw"
      and raw: "run fw smp b = Inr raw"
      using Cons.prems(1) a by (auto simp: Let_def split: option.splits sum.splits)
    show ?thesis
    proof (cases "raw = []")
      case True
      then have "run_loop fws smp pr res = Inr res'"
        using Cons.prems(1) a False k fw raw by (simp add: finalize_Nil_iff)
      from Cons.IH [OF this Cons.prems(2)] show ?thesis by auto
    next
      case nonempty: False
      then have "run_loop fws smp pr (dict_set res k (finalize raw)) = Inr res'"
        using Cons.prems(1) a False k fw raw by (simp add: finalize_Nil_iff Let_def)
      from Cons.IH [OF this Cons.prems(2)]
      show ?thesis using a False k fw raw nonempty
        by (auto simp: dict_get_dict_set split: if_splits)
    qed
  qed
qed

lemma CAPE_run_loop_source:
  "(name, r) \<in> set (CAPE_run_loop gn smp b res) \<Longrightarrow>
   (name, r) \<in> set res \<or>
   (\<exists>p \<in> set (dict_keys b). gn p = name \<and> CAPE_run_parser name smp p = Inr (Some r))"
proof (induction b arbitrary: res)
  case Nil
  then show ?case by simp
next
  case (Cons a b)
  obtain p ms where a: "a = (p, ms)" by (cases a)
  show ?case
  proof (cases "CAPE_run_parser (gn p) smp p")
    case (Inl e)
    then have "(name, r) \<in> set (CAPE_run_loop gn smp b res)"
      using Cons.prems a by (simp add: Let_def)
    from Cons.IH [OF this] show ?thesis by (auto simp: dict_keys_def)
  next
    case (Inr out)
    show ?thesis
    proof (cases out)
      case None
      then have "(name, r) \<in> set (CAPE_run_loop gn smp b res)"
        using Cons.prems a Inr by (simp add: Let_def)
      from Cons.IH [OF this] show ?thesis by (auto simp: dict_keys_def)
    next
      case (Some r')
      then have "(name, r) \<in> set (CAPE_run_loop gn smp b (dict_set res (gn p) r'))"
        using Cons.prems a Inr by (simp add: Let_def)
      from Cons.IH [OF this] show ?thesis
        using set_dict_set [of res "gn p" r'] a Inr Some by (auto simp: dict_keys_def)
    qed
  qed
qed

lemma CAPE_run_parser_output:
  "CAPE_run_parser name smp p = Inr (Some r) \<Longrightarrow>
   \<exists>f data out. extract_config p = Some f \<and> sample_bytes smp = Inr data \<and>
     f data = Inr out \<and> out \<noteq> []"
  by (auto simp: CAPE_run_parser_def split: option.splits sum.splits if_splits)

text \<open>
  C3. A framework name is a key of the mapping \<open>run_parsers\<close> returns only if that
  framework had a run batch, the batch was not empty, and its adapter's \<open>run\<close> returned
  a non-empty mapping of records for the sample (the value stored is that mapping after
  \<open>finalize\<close>); for the CAPE adapter some parser of the batch then returned non-empty
  output. So a framework with no batch, an empty batch or an empty result has no key.
\<close>

theorem run_parsers_key_has_output:
  assumes "snd (run_parsers rc self smp blk) = Inr res" and "dict_get res n = Some r"
  shows "\<exists>pr b fw raw.
     parsers_to_run rc self smp blk = Inr pr \<and> dict_get pr (Some n) = Some b \<and> b \<noteq> [] \<and>
     dict_get (FRAMEWORK_LIBRARY_MAPPING self) n = Some fw \<and>
     run fw smp b = Inr raw \<and> raw \<noteq> [] \<and> r = finalize raw \<and> r \<noteq> [] \<and>
     (\<forall>gn ex. fw = CAPE gn ex \<longrightarrow>
        (\<exists>p f data out. p \<in> set (dict_keys b) \<and> extract_config p = Some f \<and>
           sample_bytes smp = Inr data \<and> f data = Inr out \<and> out \<noteq> []))"
proof -
  obtain pr where pr: "parsers_to_run rc self smp blk = Inr pr"
    and loop: "run_loop (FRAMEWORK_LIBRARY_MAPPING self) smp pr [] = Inr res"
    using assms(1) by (auto simp: run_parsers_def split: sum.splits)
  from run_loop_key [OF loop assms(2)]
  obtain b fw raw where mem: "(Some n, b) \<in> set pr" and b: "b \<noteq> []"
    and fw: "dict_get (FRAMEWORK_LIBRARY_MAPPING self) n = Some fw"
    and raw: "run fw smp b = Inr raw" "raw \<noteq> []" and r: "r = finalize raw"
    by (auto simp: dict_get_def)
  have get: "dict_get pr (Some n) = Some b"
    using parsers_to_run_distinct [OF pr] mem by (rule dict_get_mem)
  have cape: "\<exists>p f data out. p \<in> set (dict_keys b) \<and> extract_config p = Some f \<and>
      sample_bytes smp = Inr data \<and> f data = Inr out \<and> out \<noteq> []"
    if "fw = CAPE gn ex" for gn ex
  proof -
    have "raw = CAPE_run_loop gn smp b []"
      using raw(1) that by (simp add: CAPE_def CAPE_run_def)
    moreover obtain name r0 where "(name, r0) \<in> set raw"
      using raw(2) by (cases raw) auto
    ultimately obtain p where "p \<in> set (dict_keys b)"
      and "CAPE_run_parser name smp p = Inr (Some r0)"
      using CAPE_run_loop_source [of name r0 gn smp b "[]"] by auto
    then show ?thesis using CAPE_run_parser_output by blast
  qed
  show ?thesis
    using pr get b fw raw r cape by (auto simp: finalize_Nil_iff)
qed

section \<open>The concrete inputs, evaluated\<close>

lemma good_ne_bad: "good_parser \<noteq> bad_parser" "bad_parser \<noteq> good_parser"
  by (simp_all add: good_parser_def bad_parser_def demo_parser_def)

lemma demo_py_names: "py_name good_parser = ''Good''" "py_name bad_parser = ''Bad''"
  by (simp_all add: good_parser_def bad_parser_def demo_parser_def)

lemma demo_batches:
  "parsers_to_run literal_regex (demo_extractor []) demo_sample []
     = Inr [(Some ''CAPE'', [(good_parser, []), (bad_parser, [])])]"
  by (simp add: parsers_to_run_def compile_blocklist_def demo_extractor_def
      standalone_loop_def blocked_def add_to_batch_def dict_get_def good_ne_bad)

lemma run_good: "CAPE_run_parser ''Good'' demo_sample good_parser = Inr (Some good_record)"
  by (simp add: CAPE_run_parser_def good_parser_def demo_parser_def demo_sample_def
      good_record_def)

lemma run_bad:
  "CAPE_run_parser ''Bad'' demo_sample bad_parser = Inl (OtherException ''boom'')"
  by (simp add: CAPE_run_parser_def bad_parser_def demo_parser_def demo_sample_def)

lemma finalize_good: "finalize [(''Good'', good_record)] = [(''Good'', good_record)]"
  by (simp add: finalize_def finalize_record_def finalize_config_def good_record_def)

lemma demo_run:
  "snd (run_parsers literal_regex (demo_extractor []) demo_sample [])
     = Inr [(''CAPE'', [(''Good'', good_record)])]"
  by (simp add: run_parsers_def demo_batches)
    (simp add: demo_extractor_def demo_fws_def demo_CAPE_def CAPE_def CAPE_run_def
      dict_get_def demo_py_names run_good run_bad finalize_good)

lemma literal_blocklist:
  "compile_blocklist literal_regex [''Ba'', ''Zz'']
     = Inr (Some (literal_pattern [''Ba'', ''Zz'']))"
  by (simp add: compile_blocklist_def literal_regex_def)

theorem run_parsers_key_has_output_witness:
  "snd (run_parsers literal_regex (demo_extractor []) demo_sample [])
     = Inr [(''CAPE'', [(''Good'', good_record)])] \<and>
   (\<exists>pr b fw raw.
      parsers_to_run literal_regex (demo_extractor []) demo_sample [] = Inr pr \<and>
      dict_get pr (Some ''CAPE'') = Some b \<and> b \<noteq> [] \<and>
      dict_get (FRAMEWORK_LIBRARY_MAPPING (demo_extractor [])) ''CAPE'' = Some fw \<and>
      run fw demo_sample b = Inr raw \<and> raw \<noteq> [] \<and>
      [(''Good'', good_record)] = finalize raw)"
proof -
  have "dict_get [(''CAPE'', [(''Good'', good_record)])] ''CAPE''
      = Some [(''Good'', good_record)]"
    by (simp add: dict_get_def)
  from run_parsers_key_has_output [OF demo_run this] show ?thesis
    using demo_run by blast
qed

section \<open>The blocklist of one call\<close>

lemma compile_empty_blocklist: "compile_blocklist rc [] = Inr None"
  by (simp add: compile_blocklist_def)

lemma blocked_None: "\<not> blocked None name"
  by (simp add: blocked_def)

lemma parsers_to_run_same_outcome:
  assumes "compile_blocklist rc blk = Inr br"
  shows "(\<exists>pr. parsers_to_run rc self smp blk = Inr pr) \<longleftrightarrow>
     (\<exists>pr0. parsers_to_run rc self smp [] = Inr pr0)"
proof (cases "yara self smp")
  case (Inl e)
  then show ?thesis using assms by (simp add: parsers_to_run_def compile_empty_blocklist)
next
  case (Inr ms)
  have "(\<exists>pr. parsers_to_run rc self smp b = Inr pr) \<longleftrightarrow>
      (\<exists>pr1. match_loop (parsers self) r ms [] = Inr pr1)"
    if "compile_blocklist rc b = Inr r" for b r
    using that Inr by (auto simp: parsers_to_run_def split: sum.splits)
  from this [OF assms] this [OF compile_empty_blocklist]
  show ?thesis using match_loop_same_outcome [of "parsers self" br ms "[]" None "[]"] by simp
qed

section \<open>The registry lookup of \<open>run_parsers\<close>, evaluated\<close>

lemma registry_lookup_None_iff:
  "registry_lookup ps pm = None \<longleftrightarrow> pm \<notin> Some ` set (dict_keys ps)"
  by (cases pm) (auto simp: registry_lookup_def dict_get_None_iff)

lemma demo_ghost_run:
  "snd (run_parsers literal_regex (demo_extractor [demo_match ''ghost'']) demo_sample [])
     = Inl (RegistryKeyError (Some ''ghost''))"
  by (simp add: run_parsers_def parsers_to_run_def compile_blocklist_def demo_extractor_def
      demo_match_def registry_lookup_def dict_get_def)

lemma demo_matched_batches:
  "parsers_to_run literal_regex (demo_extractor [demo_match ''plugins.cape.one'']) demo_sample []
     = Inr [(Some ''CAPE'', [(good_parser, [demo_match ''plugins.cape.one'']), (bad_parser, [])])]"
  by (simp add: parsers_to_run_def compile_blocklist_def demo_extractor_def
      registry_lookup_def standalone_loop_def blocked_def add_to_batch_def dict_get_def
      good_ne_bad demo_match_def)

section \<open>Discovery: one candidate\<close>

lemma try_frameworks_blocked:
  "blocked br (py_name c) \<Longrightarrow> try_frameworks br fws c d = d"
  by (induction fws arbitrary: d)
    (auto simp: try_body_def split: sum.splits bool.splits exn.splits)

lemma try_frameworks_validate_raises:
  "validate fw c = Inl e \<Longrightarrow>
   try_frameworks br ((n, fw) # fws) c d = try_frameworks br fws c d"
  by (simp add: try_body_def split: exn.splits)

lemma try_frameworks_validate_false:
  "validate fw c = Inr False \<Longrightarrow>
   try_frameworks br ((n, fw) # fws) c d = try_frameworks br fws c d"
  by (simp add: try_body_def)

lemma try_frameworks_no_module:
  "validate fw c = Inr True \<Longrightarrow> py_module c = None \<Longrightarrow>
   try_frameworks br ((n, fw) # fws) c d = try_frameworks br fws c d"
  by (simp add: try_body_def)

lemma try_frameworks_extract_raises:
  "validate fw c = Inr True \<Longrightarrow> \<not> blocked br (py_name c) \<Longrightarrow> py_module c = Some k \<Longrightarrow>
   extract_yara_from_module fw c (yara_rule_names d) = (names, Inl e) \<Longrightarrow>
   try_frameworks br ((n, fw) # fws) c d
     = try_frameworks br fws c
         (d\<lparr>parsers := dict_set (parsers d) k c, yara_rule_names := names\<rparr>)"
  by (simp add: try_body_def split: exn.splits)

lemma try_frameworks_claims:
  "validate fw c = Inr True \<Longrightarrow> \<not> blocked br (py_name c) \<Longrightarrow> py_module c = Some k \<Longrightarrow>
   extract_yara_from_module fw c (yara_rule_names d) = (names, Inr rs) \<Longrightarrow>
   try_frameworks br ((n, fw) # fws) c d
     = (if rs = []
        then d\<lparr>parsers := dict_set (parsers d) k c, yara_rule_names := names,
               standalone_parsers := add_standalone (standalone_parsers d) n c\<rparr>
        else d\<lparr>parsers := dict_set (parsers d) k c, yara_rule_names := names,
               yara_rules := yara_rules d @ rs\<rparr>)"
  by (simp add: try_body_def)

declare try_frameworks.simps(2) [simp del]

text \<open>The four ways one adapter's turn can go, by cases.\<close>

lemma try_frameworks_cases:
  obtains
    (skip) "try_frameworks br ((n, fw) # fws) c d = try_frameworks br fws c d"
      and "validate fw c \<noteq> Inr True \<or> blocked br (py_name c) \<or> py_module c = None"
  | (raised) k names where "validate fw c = Inr True" and "\<not> blocked br (py_name c)"
      and "py_module c = Some k"
      and "try_frameworks br ((n, fw) # fws) c d
        = try_frameworks br fws c
            (d\<lparr>parsers := dict_set (parsers d) k c, yara_rule_names := names\<rparr>)"
  | (standalone) k names where "validate fw c = Inr True" and "\<not> blocked br (py_name c)"
      and "py_module c = Some k"
      and "try_frameworks br ((n, fw) # fws) c d
        = d\<lparr>parsers := dict_set (parsers d) k c, yara_rule_names := names,
             standalone_parsers := add_standalone (standalone_parsers d) n c\<rparr>"
  | (rules) k names rs where "validate fw c = Inr True" and "\<not> blocked br (py_name c)"
      and "py_module c = Some k"
      and "try_frameworks br ((n, fw) # fws) c d
        = d\<lparr>parsers := dict_set (parsers d) k c, yara_rule_names := names,
             yara_rules := yara_rules d @ rs\<rparr>"
proof (cases "validate fw c")
  case (Inl e)
  then show ?thesis using skip try_frameworks_validate_raises by simp
next
  case (Inr b)
  show ?thesis
  proof (cases "b \<and> \<not> blocked br (py_name c)")
    case False
    then have "try_frameworks br ((n, fw) # fws) c d = try_frameworks br fws c d"
      using Inr by (cases b) (auto simp: try_body_def try_frameworks.simps(2))
    then show ?thesis using skip False Inr by auto
  next
    case True
    then have v: "validate fw c = Inr True" and nb: "\<not> blocked br (py_name c)"
      using Inr by simp_all
    show ?thesis
    proof (cases "py_module c")
      case None
      then show ?thesis using skip try_frameworks_no_module [OF v] by simp
    next
      case (Some k)
      obtain names res where ex: "extract_yara_from_module fw c (yara_rule_names d) = (names, res)"
        by (cases "extract_yara_from_module fw c (yara_rule_names d)")
      show ?thesis
      proof (cases res)
        case (Inl e)
        then show ?thesis
          using raised [OF v nb Some] try_frameworks_extract_raises [OF v nb Some] ex by simp
      next
        case (Inr rs)
        then show ?thesis
          using standalone [OF v nb Some] rules [OF v nb Some]
            try_frameworks_claims [OF v nb Some, of d names rs n fws] ex
          by (cases "rs = []") simp_all
      qed
    qed
  qed
qed

lemma claimed_Cons:
  "claimed ((n, fw) # fws) c \<longleftrightarrow> validate fw c = Inr True \<or> claimed fws c"
  by (simp add: claimed_def)

lemma registered_key_skip:
  "validate fw c \<noteq> Inr True \<or> blocked br (py_name c) \<or> py_module c = None \<Longrightarrow>
   registered_key br ((n, fw) # fws) c = registered_key br fws c"
  by (auto simp: registered_key_def claimed_Cons)

lemma registered_key_claimed:
  "validate fw c = Inr True \<Longrightarrow> \<not> blocked br (py_name c) \<Longrightarrow>
   registered_key br ((n, fw) # fws) c = py_module c"
  by (simp add: registered_key_def claimed_Cons)

lemma registered_key_cases:
  "registered_key br fws c = None \<or> registered_key br fws c = py_module c"
  by (simp add: registered_key_def)

text \<open>
  The registry after one candidate: the keys it had, and the candidate's
  \<open>__module__\<close> if the candidate is claimed and not blocked.
\<close>

lemma try_frameworks_keys:
  "set (dict_keys (parsers (try_frameworks br fws c d)))
     = set (dict_keys (parsers d)) \<union> set_option (registered_key br fws c)"
proof (induction fws arbitrary: d)
  case Nil
  then show ?case by (simp add: registered_key_def claimed_def)
next
  case (Cons a fws)
  obtain n fw where a: "a = (n, fw)" by (cases a)
  have "set (dict_keys (parsers (try_frameworks br ((n, fw) # fws) c d)))
      = set (dict_keys (parsers d)) \<union> set_option (registered_key br ((n, fw) # fws) c)"
  proof (cases rule: try_frameworks_cases [of br n fw fws c d])
    case skip
    then show ?thesis using Cons.IH by (simp add: registered_key_skip)
  next
    case (raised k names)
    have "set_option (registered_key br fws c) \<subseteq> {k}"
      using registered_key_cases [of br fws c] raised(3) by auto
    then show ?thesis
      using raised Cons.IH [of "d\<lparr>parsers := dict_set (parsers d) k c, yara_rule_names := names\<rparr>"]
      by (auto simp: registered_key_claimed dict_keys_dict_set)
  next
    case (standalone k names)
    then show ?thesis by (simp add: registered_key_claimed dict_keys_dict_set)
  next
    case (rules k names rs)
    then show ?thesis by (simp add: registered_key_claimed dict_keys_dict_set)
  qed
  then show ?case by (simp only: a)
qed

lemma try_frameworks_distinct:
  "distinct (dict_keys (parsers d)) \<Longrightarrow>
   distinct (dict_keys (parsers (try_frameworks br fws c d)))"
proof (induction fws arbitrary: d)
  case Nil
  then show ?case by simp
next
  case (Cons a fws)
  obtain n fw where a: "a = (n, fw)" by (cases a)
  have "distinct (dict_keys (parsers (try_frameworks br ((n, fw) # fws) c d)))"
  proof (cases rule: try_frameworks_cases [of br n fw fws c d])
    case skip
    then show ?thesis using Cons by simp
  next
    case (raised k names)
    then show ?thesis
      using Cons.IH [of "d\<lparr>parsers := dict_set (parsers d) k c, yara_rule_names := names\<rparr>"]
        Cons.prems by (simp add: distinct_dict_set)
  next
    case (standalone k names)
    then show ?thesis using Cons.prems by (simp add: distinct_dict_set)
  next
    case (rules k names rs)
    then show ?thesis using Cons.prems by (simp add: distinct_dict_set)
  qed
  then show ?case by (simp only: a)
qed

lemma list_all_dict_set:
  "list_all P d \<Longrightarrow> P (k, v) \<Longrightarrow> (\<And>k' v'. P (k', v') \<Longrightarrow> P (k', v)) \<Longrightarrow>
   list_all P (dict_set d k v)"
  by (induction d) auto

lemma registry_unblocked_register:
  "registry_unblocked br d \<Longrightarrow> \<not> blocked br (py_name c) \<Longrightarrow>
   registry_unblocked br (d\<lparr>parsers := dict_set (parsers d) k c\<rparr>)"
  by (auto simp: registry_unblocked_def intro!: list_all_dict_set)

lemma registry_unblocked_standalone:
  "registry_unblocked br d \<Longrightarrow> \<not> blocked br (py_name c) \<Longrightarrow>
   registry_unblocked br (d\<lparr>standalone_parsers := add_standalone (standalone_parsers d) n c\<rparr>)"
proof -
  assume d: "registry_unblocked br d" and c: "\<not> blocked br (py_name c)"
  let ?P = "\<lambda>(fw_name, l). list_all (\<lambda>member. \<not> blocked br (py_name member)) l"
  let ?s = "case dict_get (standalone_parsers d) n of None \<Rightarrow> [] | Some l \<Rightarrow> l"
  have all: "list_all ?P (standalone_parsers d)"
    using d by (simp add: registry_unblocked_def)
  have "list_all (\<lambda>member. \<not> blocked br (py_name member)) ?s"
  proof (cases "dict_get (standalone_parsers d) n")
    case None
    then show ?thesis by simp
  next
    case (Some l)
    then have "(n, l) \<in> set (standalone_parsers d)" by (rule dict_get_Some_mem)
    then have "?P (n, l)" using all by (auto simp: list_all_iff)
    then show ?thesis using Some by simp
  qed
  then have "?P (n, if c \<in> set ?s then ?s else ?s @ [c])"
    using c by simp
  then have "list_all ?P (add_standalone (standalone_parsers d) n c)"
    unfolding add_standalone_def Let_def using all
    by (intro list_all_dict_set) auto
  then show ?thesis using d by (simp add: registry_unblocked_def)
qed

lemma registry_unblocked_names:
  "registry_unblocked br (d\<lparr>yara_rule_names := names\<rparr>) = registry_unblocked br d"
  "registry_unblocked br (d\<lparr>yara_rules := rs\<rparr>) = registry_unblocked br d"
  by (simp_all add: registry_unblocked_def)

lemma try_frameworks_unblocked:
  "registry_unblocked br d \<Longrightarrow> registry_unblocked br (try_frameworks br fws c d)"
proof (induction fws arbitrary: d)
  case Nil
  then show ?case by simp
next
  case (Cons a fws)
  obtain n fw where a: "a = (n, fw)" by (cases a)
  have "registry_unblocked br (try_frameworks br ((n, fw) # fws) c d)"
  proof (cases rule: try_frameworks_cases [of br n fw fws c d])
    case skip
    then show ?thesis using Cons by simp
  next
    case (raised k names)
    have "registry_unblocked br (d\<lparr>parsers := dict_set (parsers d) k c, yara_rule_names := names\<rparr>)"
      using registry_unblocked_register [OF Cons.prems raised(2)]
      by (simp add: registry_unblocked_names)
    then show ?thesis using raised(4) Cons.IH by simp
  next
    case (standalone k names)
    have "registry_unblocked br (d\<lparr>parsers := dict_set (parsers d) k c, yara_rule_names := names\<rparr>)"
      using registry_unblocked_register [OF Cons.prems standalone(2)]
      by (simp add: registry_unblocked_names)
    from registry_unblocked_standalone [OF this standalone(2), of n]
    show ?thesis using standalone(4) by simp
  next
    case (rules k names rs)
    have "registry_unblocked br (d\<lparr>parsers := dict_set (parsers d) k c\<rparr>)"
      using registry_unblocked_register [OF Cons.prems rules(2)] .
    then show ?thesis using rules(4) by (simp add: registry_unblocked_def)
  qed
  then show ?case by (simp only: a)
qed

section \<open>Discovery: the loops\<close>

lemma list_all_dict_set_entry:
  "list_all P d \<Longrightarrow> P (k, v) \<Longrightarrow> list_all P (dict_set d k v)"
  by (induction d) auto

lemma try_frameworks_keyed:
  "keyed_by_module d \<Longrightarrow> keyed_by_module (try_frameworks br fws c d)"
proof (induction fws arbitrary: d)
  case Nil
  then show ?case by simp
next
  case (Cons a fws)
  obtain n fw where a: "a = (n, fw)" by (cases a)
  have reg: "keyed_by_module (d\<lparr>parsers := dict_set (parsers d) k c\<rparr>)"
    if "py_module c = Some k" for k
    using Cons.prems that by (auto simp: keyed_by_module_def intro!: list_all_dict_set_entry)
  have "keyed_by_module (try_frameworks br ((n, fw) # fws) c d)"
  proof (cases rule: try_frameworks_cases [of br n fw fws c d])
    case skip
    then show ?thesis using Cons by simp
  next
    case (raised k names)
    have "keyed_by_module (d\<lparr>parsers := dict_set (parsers d) k c, yara_rule_names := names\<rparr>)"
      using reg [OF raised(3)] by (simp add: keyed_by_module_def)
    then show ?thesis using raised(4) Cons.IH by simp
  next
    case (standalone k names)
    then show ?thesis using reg [of k] by (simp add: keyed_by_module_def)
  next
    case (rules k names rs)
    then show ?thesis using reg [of k] by (simp add: keyed_by_module_def)
  qed
  then show ?case by (simp only: a)
qed

lemma inspect_candidates_append:
  "inspect_candidates br fws (cs1 @ cs2) d
     = inspect_candidates br fws cs2 (inspect_candidates br fws cs1 d)"
  by (simp add: inspect_candidates_def)

lemma inspect_candidates_Cons:
  "inspect_candidates br fws (c # cs) d = inspect_candidates br fws cs (try_frameworks br fws c d)"
  by (simp add: inspect_candidates_def)

lemma inspect_candidates_Nil: "inspect_candidates br fws [] d = d"
  by (simp add: inspect_candidates_def)

lemma inspect_candidates_filter:
  "inspect_candidates br fws cs d
     = inspect_candidates br fws (filter (\<lambda>c. \<not> blocked br (py_name c)) cs) d"
  by (induction cs arbitrary: d)
    (simp_all add: inspect_candidates_Nil inspect_candidates_Cons try_frameworks_blocked)

lemma inspect_candidates_keys:
  "set (dict_keys (parsers (inspect_candidates br fws cs d)))
     = set (dict_keys (parsers d)) \<union> {k. \<exists>c \<in> set cs. registered_key br fws c = Some k}"
  by (induction cs arbitrary: d)
    (auto simp: inspect_candidates_Nil inspect_candidates_Cons try_frameworks_keys)

lemma inspect_candidates_distinct:
  "distinct (dict_keys (parsers d)) \<Longrightarrow>
   distinct (dict_keys (parsers (inspect_candidates br fws cs d)))"
  by (induction cs arbitrary: d)
    (simp_all add: inspect_candidates_Nil inspect_candidates_Cons try_frameworks_distinct)

lemma inspect_candidates_unblocked:
  "registry_unblocked br d \<Longrightarrow> registry_unblocked br (inspect_candidates br fws cs d)"
  by (induction cs arbitrary: d)
    (simp_all add: inspect_candidates_Nil inspect_candidates_Cons try_frameworks_unblocked)

lemma inspect_candidates_keyed:
  "keyed_by_module d \<Longrightarrow> keyed_by_module (inspect_candidates br fws cs d)"
  by (induction cs arbitrary: d)
    (simp_all add: inspect_candidates_Nil inspect_candidates_Cons try_frameworks_keyed)

text \<open>
  One unit: the walk either ends with the exception of line 97, or it leaves the state
  that the loop over the unit's candidates gives, up to the rewritten rules of a staged
  root.
\<close>

lemma inspect_unit_error:
  "(case inspect_unit os br fws not_py dirs local u d of Inl e \<Rightarrow> Some e | Inr d' \<Rightarrow> None)
     = unit_error os not_py (fst dirs) local u"
  by (simp add: inspect_unit_def unit_error_def Let_def split: sum.splits prod.splits)

lemma inspect_unit_Inr:
  "inspect_unit os br fws not_py dirs local u d = Inr d' \<Longrightarrow>
   \<exists>rs. d' = (inspect_candidates br fws (unit_candidates not_py u) d)\<lparr>yara_rules := rs\<rparr>"
proof -
  assume a: "inspect_unit os br fws not_py dirs local u d = Inr d'"
  show ?thesis
  proof (cases "unit_candidates not_py u = []")
    case True
    then have "d' = d"
      using a
      by (auto simp: inspect_unit_def unit_candidates_def Let_def
          split: sum.splits prod.splits if_splits)
    then show ?thesis
      using True by (intro exI [of _ "yara_rules d"]) (simp add: inspect_candidates_Nil)
  next
    case False
    then obtain module classes where i: "import_module u = Inr (module, classes)"
      and c: "unit_candidates not_py u = module # classes"
      by (auto simp: unit_candidates_def split: if_splits sum.splits prod.splits)
    let ?d1 = "inspect_candidates br fws (module # classes) d"
    have "d' = ?d1 \<or> d' = ?d1\<lparr>yara_rules := map (replace (fst dirs) (snd dirs)) (yara_rules ?d1)\<rparr>"
      using a i False
      by (auto simp: inspect_unit_def unit_candidates_def Let_def
          split: sum.splits prod.splits if_splits)
    then show ?thesis
    proof
      assume "d' = ?d1"
      then show ?thesis using c by (intro exI [of _ "yara_rules ?d1"]) simp
    next
      assume "d' = ?d1\<lparr>yara_rules := map (replace (fst dirs) (snd dirs)) (yara_rules ?d1)\<rparr>"
      then show ?thesis using c by auto
    qed
  qed
qed

lemma inspect_unit_unstaged:
  "inspect_unit os br fws not_py (dir, dir) local u d = Inr d' \<Longrightarrow>
   d' = inspect_candidates br fws (unit_candidates not_py u) d"
  by (auto simp: inspect_unit_def unit_candidates_def inspect_candidates_Nil Let_def
      split: sum.splits prod.splits if_splits)

lemma inspect_unit_keys:
  "inspect_unit os br fws not_py dirs local u d = Inr d' \<Longrightarrow>
   set (dict_keys (parsers d'))
     = set (dict_keys (parsers d)) \<union>
       {k. \<exists>c \<in> set (unit_candidates not_py u). registered_key br fws c = Some k}"
  by (drule inspect_unit_Inr) (auto simp: inspect_candidates_keys)

lemma inspect_unit_distinct:
  "inspect_unit os br fws not_py dirs local u d = Inr d' \<Longrightarrow>
   distinct (dict_keys (parsers d)) \<Longrightarrow> distinct (dict_keys (parsers d'))"
  by (drule inspect_unit_Inr) (auto simp: inspect_candidates_distinct)

lemma inspect_unit_unblocked:
  "inspect_unit os br fws not_py dirs local u d = Inr d' \<Longrightarrow>
   registry_unblocked br d \<Longrightarrow> registry_unblocked br d'"
  by (drule inspect_unit_Inr) (auto simp: inspect_candidates_unblocked registry_unblocked_names)

lemma inspect_unit_keyed:
  "inspect_unit os br fws not_py dirs local u d = Inr d' \<Longrightarrow>
   keyed_by_module d \<Longrightarrow> keyed_by_module d'"
proof -
  assume a: "inspect_unit os br fws not_py dirs local u d = Inr d'" and k: "keyed_by_module d"
  obtain rs where "d' = (inspect_candidates br fws (unit_candidates not_py u) d)\<lparr>yara_rules := rs\<rparr>"
    using inspect_unit_Inr [OF a] by blast
  then show ?thesis
    using inspect_candidates_keyed [OF k, of br fws "unit_candidates not_py u"]
    by (simp add: keyed_by_module_def)
qed

text \<open>The walk over the units of a root.\<close>

lemma walk_units_error:
  "(case walk_units os br fws not_py dirs local us d of Inl e \<Rightarrow> Some e | Inr d' \<Rightarrow> None)
     = first_error (unit_error os not_py (fst dirs) local) us"
proof (induction us arbitrary: d)
  case Nil
  then show ?case by simp
next
  case (Cons u us)
  show ?case
    using inspect_unit_error [of os br fws not_py dirs local u d, symmetric] Cons.IH
    by (cases "inspect_unit os br fws not_py dirs local u d") auto
qed

lemma walk_units_keys:
  "walk_units os br fws not_py dirs local us d = Inr d' \<Longrightarrow>
   set (dict_keys (parsers d'))
     = set (dict_keys (parsers d)) \<union>
       {k. \<exists>c \<in> set (concat (map (unit_candidates not_py) us)).
             registered_key br fws c = Some k}"
proof (induction us arbitrary: d)
  case Nil
  then show ?case by simp
next
  case (Cons u us)
  obtain d1 where 1: "inspect_unit os br fws not_py dirs local u d = Inr d1"
    and 2: "walk_units os br fws not_py dirs local us d1 = Inr d'"
    using Cons.prems by (auto split: sum.splits)
  show ?case
    unfolding Cons.IH [OF 2] inspect_unit_keys [OF 1] by auto
qed

lemma walk_units_distinct:
  "walk_units os br fws not_py dirs local us d = Inr d' \<Longrightarrow>
   distinct (dict_keys (parsers d)) \<Longrightarrow> distinct (dict_keys (parsers d'))"
  by (induction us arbitrary: d) (auto split: sum.splits dest: inspect_unit_distinct)

lemma walk_units_unblocked:
  "walk_units os br fws not_py dirs local us d = Inr d' \<Longrightarrow>
   registry_unblocked br d \<Longrightarrow> registry_unblocked br d'"
  by (induction us arbitrary: d) (auto split: sum.splits dest: inspect_unit_unblocked)

lemma walk_units_keyed:
  "walk_units os br fws not_py dirs local us d = Inr d' \<Longrightarrow>
   keyed_by_module d \<Longrightarrow> keyed_by_module d'"
  by (induction us arbitrary: d) (auto split: sum.splits dest: inspect_unit_keyed)

lemma walk_units_unstaged:
  "walk_units os br fws not_py (dir, dir) local us d = Inr d' \<Longrightarrow>
   d' = inspect_candidates br fws (concat (map (unit_candidates not_py) us)) d"
proof (induction us arbitrary: d)
  case Nil
  then show ?case by (simp add: inspect_candidates_Nil)
next
  case (Cons u us)
  obtain d1 where 1: "inspect_unit os br fws not_py (dir, dir) local u d = Inr d1"
    and 2: "walk_units os br fws not_py (dir, dir) local us d1 = Inr d'"
    using Cons.prems by (auto split: sum.splits)
  show ?case
    using Cons.IH [OF 2] inspect_unit_unstaged [OF 1]
    by (simp add: inspect_candidates_append)
qed

text \<open>The rewrite of the keys after a staged root.\<close>

lemma rekey_acc:
  "distinct (dict_keys acc) \<Longrightarrow>
   distinct (dict_keys (fold (\<lambda>(k, v) acc. dict_set acc (replace old new k) v) ps acc))"
  by (induction ps arbitrary: acc) (auto simp: distinct_dict_set)

lemma rekey_distinct: "distinct (dict_keys (rekey old new ps))"
  unfolding rekey_def by (rule rekey_acc) (simp add: dict_keys_def)

lemma rekey_keys_acc:
  "set (dict_keys (fold (\<lambda>(k, v) acc. dict_set acc (replace old new k) v) ps acc))
     = set (dict_keys acc) \<union> replace old new ` set (dict_keys ps)"
proof (induction ps arbitrary: acc)
  case Nil
  then show ?case by (simp add: dict_keys_Nil)
next
  case (Cons a ps)
  obtain k v where a: "a = (k, v)" by (cases a)
  have "dict_keys (a # ps) = k # dict_keys ps" by (simp add: a dict_keys_def)
  then show ?case
    using Cons.IH [of "dict_set acc (replace old new k) v"]
    by (simp add: a dict_keys_dict_set)
qed

lemma rekey_keys:
  "set (dict_keys (rekey old new ps)) = replace old new ` set (dict_keys ps)"
  unfolding rekey_def rekey_keys_acc by (simp add: dict_keys_Nil)

lemma rekey_values_acc:
  "list_all P acc \<Longrightarrow> list_all P ps \<Longrightarrow> (\<And>k k' v. P (k, v) \<Longrightarrow> P (k', v)) \<Longrightarrow>
   list_all P (fold (\<lambda>(k, v) acc. dict_set acc (replace old new k) v) ps acc)"
proof (induction ps arbitrary: acc)
  case Nil
  then show ?case by simp
next
  case (Cons a ps)
  obtain k v where a: "a = (k, v)" by (cases a)
  have "list_all P (dict_set acc (replace old new k) v)"
    using Cons.prems a by (intro list_all_dict_set) auto
  then show ?case using Cons a by simp
qed

lemma rekey_unblocked:
  "registry_unblocked br d \<Longrightarrow> registry_unblocked br (d\<lparr>parsers := rekey old new (parsers d)\<rparr>)"
  unfolding registry_unblocked_def rekey_def
  by (auto intro!: rekey_values_acc)

text \<open>One root.\<close>

lemma set_map_filter_registered:
  "set (List.map_filter (registered_key br fws) cs)
     = {k. \<exists>c \<in> set cs. registered_key br fws c = Some k}"
  by (induction cs) (auto simp: List.map_filter_simps split: option.splits)

lemma process_root_error:
  "(case process_root rc os blk fws r d of Inl e \<Rightarrow> Some e | Inr d' \<Rightarrow> None)
     = root_error rc os blk r"
proof (cases "os_listdir os (root_dir r)")
  case (Inl e)
  then show ?thesis by (simp add: process_root_def root_error_def)
next
  case names: (Inr names)
  show ?thesis
  proof (cases "compile_blocklist rc blk")
    case (Inl e)
    then show ?thesis using names by (simp add: process_root_def root_error_def)
  next
    case (Inr br)
    let ?np = "filter (\<lambda>file. \<not> suffix ''py'' file \<and> \<not> suffix ''pyc'' file) (files r)"
    let ?dir = "case staging_dir r of None \<Rightarrow> root_dir r | Some tmp \<Rightarrow> tmp"
    let ?local = "if ''site-packages'' \<in> set names
      then Some (join_path (root_dir r) ''site-packages'') else None"
    show ?thesis
      using walk_units_error [of os br fws ?np "(?dir, root_dir r)" ?local "units r" d] names Inr
      by (cases "walk_units os br fws ?np (?dir, root_dir r) ?local (units r) d")
        (auto simp: process_root_def root_error_def Let_def)
  qed
qed

lemma process_root_walk:
  assumes "process_root rc os blk fws r d = Inr d'" and "compile_blocklist rc blk = Inr br"
  obtains local d1 where
    "walk_units os br fws
       (filter (\<lambda>file. \<not> suffix ''py'' file \<and> \<not> suffix ''pyc'' file) (files r))
       (case staging_dir r of None \<Rightarrow> root_dir r | Some tmp \<Rightarrow> tmp, root_dir r)
       local (units r) d = Inr d1"
    and "d' = (case staging_dir r of
                 None \<Rightarrow> d1
               | Some tmp \<Rightarrow>
                   if root_dir r \<noteq> tmp
                   then d1\<lparr>parsers := rekey tmp (root_dir r) (parsers d1)\<rparr> else d1)"
  using assms
  by (auto simp: process_root_def Let_def split: sum.splits if_splits option.splits)

lemma process_root_keys:
  assumes "process_root rc os blk fws r d = Inr d'" and "compile_blocklist rc blk = Inr br"
  shows "set (dict_keys (parsers d'))
     = rewrite_key r `
         (set (dict_keys (parsers d)) \<union>
          set (List.map_filter (registered_key br fws) (root_candidates r)))"
proof -
  from assms obtain local d1 where
    w: "walk_units os br fws
       (filter (\<lambda>file. \<not> suffix ''py'' file \<and> \<not> suffix ''pyc'' file) (files r))
       (case staging_dir r of None \<Rightarrow> root_dir r | Some tmp \<Rightarrow> tmp, root_dir r)
       local (units r) d = Inr d1"
    and d': "d' = (case staging_dir r of
                 None \<Rightarrow> d1
               | Some tmp \<Rightarrow>
                   if root_dir r \<noteq> tmp
                   then d1\<lparr>parsers := rekey tmp (root_dir r) (parsers d1)\<rparr> else d1)"
    by (rule process_root_walk)
  have k1: "set (dict_keys (parsers d1))
      = set (dict_keys (parsers d)) \<union>
        set (List.map_filter (registered_key br fws) (root_candidates r))"
    unfolding walk_units_keys [OF w] set_map_filter_registered root_candidates_def ..
  have "set (dict_keys (parsers d')) = rewrite_key r ` set (dict_keys (parsers d1))"
    unfolding d' by (auto simp: rewrite_key_def rekey_keys split: option.splits)
  then show ?thesis unfolding k1 .
qed

lemma process_root_distinct:
  "process_root rc os blk fws r d = Inr d' \<Longrightarrow> distinct (dict_keys (parsers d)) \<Longrightarrow>
   distinct (dict_keys (parsers d'))"
  by (auto simp: process_root_def Let_def rekey_distinct
      split: sum.splits if_splits dest: walk_units_distinct)

lemma process_root_unblocked:
  "process_root rc os blk fws r d = Inr d' \<Longrightarrow> compile_blocklist rc blk = Inr br \<Longrightarrow>
   registry_unblocked br d \<Longrightarrow> registry_unblocked br d'"
  by (auto simp: process_root_def Let_def rekey_unblocked
      split: sum.splits if_splits dest: walk_units_unblocked)

lemma process_root_unstaged:
  "process_root rc os blk fws r d = Inr d' \<Longrightarrow> compile_blocklist rc blk = Inr br \<Longrightarrow>
   staging_dir r = None \<Longrightarrow> d' = inspect_candidates br fws (root_candidates r) d"
  by (auto simp: process_root_def Let_def root_candidates_def
      split: sum.splits if_splits dest: walk_units_unstaged)

text \<open>All roots.\<close>

lemma process_roots_error:
  "(case process_roots rc os blk fws roots d of Inl e \<Rightarrow> Some e | Inr d' \<Rightarrow> None)
     = discovery_error rc os blk roots"
proof (induction roots arbitrary: d)
  case Nil
  then show ?case by (simp add: discovery_error_def)
next
  case (Cons r roots)
  show ?case
    using process_root_error [of rc os blk fws r d, symmetric] Cons.IH
    by (cases "process_root rc os blk fws r d") (auto simp: discovery_error_def)
qed

lemma process_roots_keys:
  "process_roots rc os blk fws roots d = Inr d' \<Longrightarrow> compile_blocklist rc blk = Inr br \<Longrightarrow>
   set (dict_keys (parsers d'))
     = final_key roots ` set (dict_keys (parsers d)) \<union> set (identities br fws roots)"
proof (induction roots arbitrary: d)
  case Nil
  then show ?case by simp
next
  case (Cons r roots)
  obtain d1 where 1: "process_root rc os blk fws r d = Inr d1"
    and 2: "process_roots rc os blk fws roots d1 = Inr d'"
    using Cons.prems(1) by (auto split: sum.splits)
  have "final_key roots ` rewrite_key r ` A = final_key (r # roots) ` A" for A
    by (auto simp: image_image)
  then show ?case
    unfolding Cons.IH [OF 2 Cons.prems(2)] process_root_keys [OF 1 Cons.prems(2)]
    by (auto simp: image_Un image_image)
qed

lemma process_roots_distinct:
  "process_roots rc os blk fws roots d = Inr d' \<Longrightarrow> distinct (dict_keys (parsers d)) \<Longrightarrow>
   distinct (dict_keys (parsers d'))"
  by (induction roots arbitrary: d) (auto split: sum.splits dest: process_root_distinct)

lemma process_roots_unblocked:
  "process_roots rc os blk fws roots d = Inr d' \<Longrightarrow> compile_blocklist rc blk = Inr br \<Longrightarrow>
   registry_unblocked br d \<Longrightarrow> registry_unblocked br d'"
  by (induction roots arbitrary: d) (auto split: sum.splits dest: process_root_unblocked)

lemma process_roots_unstaged:
  "process_roots rc os blk fws roots d = Inr d' \<Longrightarrow> compile_blocklist rc blk = Inr br \<Longrightarrow>
   (\<And>r. r \<in> set roots \<Longrightarrow> staging_dir r = None) \<Longrightarrow>
   d' = inspect_candidates br fws (candidates_of roots) d"
proof (induction roots arbitrary: d)
  case Nil
  then show ?case by (simp add: candidates_of_def inspect_candidates_Nil)
next
  case (Cons r roots)
  obtain d1 where 1: "process_root rc os blk fws r d = Inr d1"
    and 2: "process_roots rc os blk fws roots d1 = Inr d'"
    using Cons.prems(1) by (auto split: sum.splits)
  have "d1 = inspect_candidates br fws (root_candidates r) d"
    using process_root_unstaged [OF 1 Cons.prems(2)] Cons.prems(3) by simp
  moreover have "d' = inspect_candidates br fws (candidates_of roots) d1"
    using Cons.IH [OF 2 Cons.prems(2)] Cons.prems(3) by simp
  ultimately show ?case
    by (simp add: candidates_of_def inspect_candidates_append)
qed

lemma final_key_unstaged:
  "(\<And>r. r \<in> set roots \<Longrightarrow> staging_dir r = None) \<Longrightarrow> final_key roots k = k"
  by (induction roots arbitrary: k) (simp_all add: rewrite_key_def)

lemma identities_unstaged:
  "(\<And>r. r \<in> set roots \<Longrightarrow> staging_dir r = None) \<Longrightarrow>
   set (identities br fws roots)
     = {k. \<exists>c \<in> set (candidates_of roots). registered_key br fws c = Some k}"
proof (induction roots)
  case Nil
  then show ?case by (simp add: candidates_of_def)
next
  case (Cons r roots)
  have "final_key (r # roots) k = k" for k
    using final_key_unstaged [of "r # roots"] Cons.prems by blast
  then have "map (final_key (r # roots)) xs = xs" for xs
    by (induction xs) auto
  then show ?case
    using Cons by (auto simp: candidates_of_def set_map_filter_registered)
qed

lemma init_discovery:
  assumes "ConfigExtractor_init rc yc os fws roots blk = Inr cx"
  obtains d where "process_roots rc os blk fws roots
      \<lparr>parsers = [], standalone_parsers = [], yara_rules = [], yara_rule_names = []\<rparr> = Inr d"
    and "parsers cx = parsers d" and "standalone_parsers cx = standalone_parsers d"
    and "FRAMEWORK_LIBRARY_MAPPING cx = fws"
    and "yc (join [CHR 0x0A] (yara_rules d)) = Inr (yara cx)"
  using assms by (auto simp: ConfigExtractor_init_def split: sum.splits)

section \<open>Discovery on the concrete inputs\<close>

lemma find_site_packages_unfold:
  "0 < lim \<Longrightarrow>
   find_site_packages lim ls parsers_dir local path =
     (let parent_dir = dirname path
      in if parent_dir = parsers_dir then Inr local
         else
           (case ls parent_dir of
              Inl e \<Rightarrow> Inl e
            | Inr names \<Rightarrow>
                if ''site-packages'' \<in> set names
                then Inr (Some (join_path parent_dir ''site-packages''))
                else find_site_packages (lim - 1) ls parsers_dir local parent_dir))"
  by (cases lim) (simp_all add: Let_def split: sum.splits)

lemma dirname_demo:
  "dirname ''/plugins/cape'' = ''/plugins''" "dirname ''/plugins'' = ''/''" "dirname ''/'' = ''/''"
  by (simp_all add: dirname_def)


lemma first_error_None: "(\<And>x. x \<in> set xs \<Longrightarrow> f x = None) \<Longrightarrow> first_error f xs = None"
  by (induction xs) simp_all

lemma demo_unit_error:
  "unit_error demo_os not_py ''/plugins'' local (demo_unit name classes) = None"
  by (simp add: unit_error_def demo_unit_def demo_os_def find_site_packages_unfold dirname_demo)

lemma cape_package_error: "unit_error os not_py dir local cape_package = None"
  by (simp add: unit_error_def cape_package_def)


lemma demo_root_error:
  assumes "compile_blocklist rc blk = Inr br"
    and "\<And>u. u \<in> set us \<Longrightarrow> \<exists>name classes. u = demo_unit name classes"
  shows "root_error rc demo_os blk (demo_root us) = None"
proof -
  have "unit_error demo_os not_py ''/plugins'' local u = None"
    if u: "u \<in> set (cape_package # us)" for u not_py local
  proof (cases "u = cape_package")
    case True
    then show ?thesis by (simp add: cape_package_error)
  next
    case False
    then obtain name classes where "u = demo_unit name classes"
      using u assms(2) [of u] by auto
    then show ?thesis by (simp add: demo_unit_error)
  qed
  then have fe: "first_error (unit_error demo_os not_py ''/plugins'' local) (cape_package # us)
      = None" for not_py local
    by (intro first_error_None) blast
  have ls: "os_listdir demo_os ''/plugins'' = Inr [''cape'']"
    by (simp add: demo_os_def)
  have r: "root_dir (demo_root us) = ''/plugins''" "staging_dir (demo_root us) = None"
    "units (demo_root us) = cape_package # us"
    by (simp_all add: demo_root_def)
  show ?thesis
    unfolding root_error_def r ls using assms(1) fe by (simp del: first_error.simps)
qed

lemma demo_discovery_error:
  assumes "compile_blocklist rc blk = Inr br"
  shows "discovery_error rc demo_os blk twin_roots = None"
    and "discovery_error rc demo_os blk demo_roots = None"
    and "discovery_error rc demo_os blk good_roots = None"
proof -
  have "root_error rc demo_os blk (demo_root [demo_unit n1 c1]) = None" for n1 c1
    by (rule demo_root_error [OF assms]) auto
  then show "discovery_error rc demo_os blk twin_roots = None"
    and "discovery_error rc demo_os blk good_roots = None"
    by (simp_all add: discovery_error_def twin_roots_def good_roots_def)
  have "root_error rc demo_os blk (demo_root [demo_unit n1 c1, demo_unit n2 c2]) = None"
    for n1 c1 n2 c2
    by (rule demo_root_error [OF assms]) auto
  then show "discovery_error rc demo_os blk demo_roots = None"
    by (simp add: discovery_error_def demo_roots_def)
qed


lemma demo_validate:
  "validate demo_CAPE good_parser = Inr True" "validate demo_CAPE twin_parser = Inr True"
  "validate demo_CAPE bad_parser = Inr True" "validate demo_CAPE interior_parser = Inr True"
  "validate demo_CAPE module_one = Inr False" "validate demo_CAPE module_two = Inr False"
  by (simp_all add: demo_CAPE_def CAPE_def CAPE_validate_def good_parser_def twin_parser_def
      bad_parser_def interior_parser_def demo_parser_def module_one_def module_two_def)

lemma declining_validate: "validate declining_fw c = Inr False"
  by (simp add: declining_fw_def)

lemma demo_py_modules:
  "py_module good_parser = Some ''plugins.cape.one''"
  "py_module twin_parser = Some ''plugins.cape.one''"
  "py_module bad_parser = Some ''plugins.cape.two''"
  "py_module interior_parser = Some ''Evil.mod''"
  by (simp_all add: good_parser_def twin_parser_def bad_parser_def interior_parser_def
      demo_parser_def)

lemma demo_extract: "extract_yara_from_module demo_CAPE c names = (names, Inr [])"
  by (simp add: demo_CAPE_def CAPE_def)



lemma demo_candidates:
  "candidates_of demo_roots = [module_one, good_parser, module_two, bad_parser]"
  by (simp add: candidates_of_def demo_roots_def root_candidates_def demo_root_def
      unit_candidates_def demo_unit_def cape_package_def module_one_def module_two_def
      suffix_to_prefix)

lemma good_candidates: "candidates_of good_roots = [module_one, good_parser]"
  by (simp add: candidates_of_def good_roots_def root_candidates_def demo_root_def
      unit_candidates_def demo_unit_def cape_package_def module_one_def suffix_to_prefix)

lemma demo_unstaged:
  "r \<in> set twin_roots \<Longrightarrow> staging_dir r = None" "r \<in> set demo_roots \<Longrightarrow> staging_dir r = None"
  "r \<in> set good_roots \<Longrightarrow> staging_dir r = None"
  by (simp_all add: twin_roots_def demo_roots_def good_roots_def demo_root_def)


lemma demo_discovery:
  "inspect_candidates None demo_fws [module_one, good_parser, module_two, bad_parser]
     empty_discovery
   = \<lparr>parsers = [(''plugins.cape.one'', good_parser), (''plugins.cape.two'', bad_parser)],
      standalone_parsers = [(''CAPE'', [good_parser, bad_parser])],
      yara_rules = [], yara_rule_names = []\<rparr>"
  by (simp add: inspect_candidates_def demo_fws_def try_frameworks_validate_false
      try_frameworks_claims [where rs = "[]"] demo_validate declining_validate
      demo_py_modules demo_extract blocked_None add_standalone_def dict_get_def good_ne_bad
      empty_discovery_def)

text \<open>
  What the constructor returns when no root is staged and the walk raises nothing: the
  registry after the loop of lines 113--130 over all inspected candidates.
\<close>

lemma init_unstaged:
  assumes "compile_blocklist rc blk = Inr br"
    and "\<And>r. r \<in> set roots \<Longrightarrow> staging_dir r = None"
    and "discovery_error rc os blk roots = None"
    and "yc (join [CHR 0x0A]
           (yara_rules (inspect_candidates br fws (candidates_of roots) empty_discovery)))
         = Inr compiled"
  shows "ConfigExtractor_init rc yc os fws roots blk
     = Inr \<lparr>parsers = parsers (inspect_candidates br fws (candidates_of roots) empty_discovery),
        standalone_parsers =
          standalone_parsers (inspect_candidates br fws (candidates_of roots) empty_discovery),
        FRAMEWORK_LIBRARY_MAPPING = fws, yara = compiled\<rparr>"
proof -
  obtain d where d: "process_roots rc os blk fws roots empty_discovery = Inr d"
    using process_roots_error [of rc os blk fws roots empty_discovery] assms(3)
    by (cases "process_roots rc os blk fws roots empty_discovery") auto
  from process_roots_unstaged [OF d assms(1,2)]
  have "d = inspect_candidates br fws (candidates_of roots) empty_discovery" by simp
  then show ?thesis
    using d assms(4) by (simp add: ConfigExtractor_init_def empty_discovery_def)
qed


lemma demo_init:
  "ConfigExtractor_init literal_regex no_rules demo_os demo_fws demo_roots []
   = Inr (demo_extractor [])"
  using init_unstaged [where roots = demo_roots and yc = no_rules and fws = demo_fws
      and compiled = "\<lambda>smp. Inr []" and rc = literal_regex and blk = "[]" and br = None
      and os = demo_os,
      OF compile_empty_blocklist demo_unstaged(2)
        demo_discovery_error(2) [OF compile_empty_blocklist]]
  by (simp add: demo_candidates demo_discovery no_rules_def demo_extractor_def)



section \<open>The identity of a registered parser\<close>

lemma init_keys:
  assumes "ConfigExtractor_init rc yc os fws roots blk = Inr cx"
    and "compile_blocklist rc blk = Inr br"
  shows "set (dict_keys (parsers cx)) = set (identities br fws roots)"
    and "distinct (dict_keys (parsers cx))"
proof -
  obtain d where d: "process_roots rc os blk fws roots
      \<lparr>parsers = [], standalone_parsers = [], yara_rules = [], yara_rule_names = []\<rparr> = Inr d"
    and p: "parsers cx = parsers d"
    using assms(1) by (rule init_discovery)
  show "set (dict_keys (parsers cx)) = set (identities br fws roots)"
    unfolding p process_roots_keys [OF d assms(2)] by (simp add: dict_keys_Nil)
  show "distinct (dict_keys (parsers cx))"
    unfolding p by (rule process_roots_distinct [OF d]) (simp add: dict_keys_def)
qed










section \<open>The blocklist at discovery time\<close>

lemma registry_unblocked_init:
  assumes "ConfigExtractor_init rc yc os fws roots blk = Inr cx"
    and "compile_blocklist rc blk = Inr br"
  shows "registry_unblocked br cx"
proof -
  obtain d where d: "process_roots rc os blk fws roots
      \<lparr>parsers = [], standalone_parsers = [], yara_rules = [], yara_rule_names = []\<rparr> = Inr d"
    and p: "parsers cx = parsers d" "standalone_parsers cx = standalone_parsers d"
    using assms(1) by (rule init_discovery)
  have "registry_unblocked br d"
    by (rule process_roots_unblocked [OF d assms(2)]) (simp add: registry_unblocked_def)
  then show ?thesis using p by (simp add: registry_unblocked_def)
qed

lemma registry_lookup_mem: "registry_lookup ps pm = Some c \<Longrightarrow> c \<in> snd ` set ps"
  by (cases pm) (auto simp: registry_lookup_def dest!: dict_get_Some_mem intro: rev_image_eqI)

lemma literal_Ba:
  "compile_blocklist literal_regex [''Ba'']
     = Inr (Some (literal_pattern [''Ba'']))"
  by (simp add: compile_blocklist_def literal_regex_def)

lemma blocked_discovery:
  "inspect_candidates (Some (literal_pattern [''Ba'']))
     demo_fws [module_one, good_parser, module_two, bad_parser] empty_discovery
   = \<lparr>parsers = [(''plugins.cape.one'', good_parser)],
      standalone_parsers = [(''CAPE'', [good_parser])],
      yara_rules = [], yara_rule_names = []\<rparr>"
proof -
  let ?br = "Some (literal_pattern [''Ba''])"
  have b: "blocked ?br (py_name bad_parser)" and g: "\<not> blocked ?br (py_name good_parser)"
    by (simp_all add: blocked_def rx_match_def demo_py_names literal_pattern_def)
  show ?thesis
    using b g
    by (simp add: inspect_candidates_def demo_fws_def try_frameworks_validate_false
        try_frameworks_claims [where rs = "[]"] try_frameworks_blocked demo_validate
        declining_validate demo_py_modules demo_extract add_standalone_def dict_get_def
        empty_discovery_def)
qed

lemma blocked_init:
  "ConfigExtractor_init literal_regex no_rules demo_os demo_fws demo_roots [''Ba'']
   = Inr \<lparr>parsers = [(''plugins.cape.one'', good_parser)],
      standalone_parsers = [(''CAPE'', [good_parser])],
      FRAMEWORK_LIBRARY_MAPPING = demo_fws, yara = (\<lambda>smp. Inr [])\<rparr>"
  using init_unstaged [where roots = demo_roots and yc = no_rules and fws = demo_fws
      and compiled = "\<lambda>smp. Inr []" and rc = literal_regex and blk = "[''Ba'']"
      and br = "Some (literal_pattern [''Ba''])" and os = demo_os,
      OF literal_Ba demo_unstaged(2) demo_discovery_error(2) [OF literal_Ba]]
  by (simp add: demo_candidates blocked_discovery no_rules_def)

text \<open>
  C4. Let the name of a candidate match the blocklist given to the constructor. The
  candidate's turn in the loop over the candidates leaves the whole discovery state
  (registry, rules, rule names, standalone sets) as it was, so the loop does what it
  does on the candidates without the blocked ones. In the constructed extractor the
  candidate is no value of the registry and no member of a standalone set, and no call
  of \<open>run_parsers\<close>, with any blocklist and sample, has it in a run batch.
\<close>

theorem discovery_blocklist_excludes:
  assumes "ConfigExtractor_init rc yc os fws roots blk = Inr cx"
    and "compile_blocklist rc blk = Inr br"
    and "blocked br (py_name c)"
  shows "try_frameworks br fws c d = d \<and>
    inspect_candidates br fws cs d
      = inspect_candidates br fws (filter (\<lambda>x. \<not> blocked br (py_name x)) cs) d \<and>
    c \<notin> snd ` set (parsers cx) \<and>
    (\<forall>l \<in> snd ` set (standalone_parsers cx). c \<notin> set l) \<and>
    (\<forall>smp blk' pr fw. parsers_to_run rc cx smp blk' = Inr pr \<longrightarrow> \<not> in_batch pr fw c)"
proof -
  have inv: "registry_unblocked br cx"
    using assms(1,2) by (rule registry_unblocked_init)
  have reg: "c \<notin> snd ` set (parsers cx)"
    using inv assms(3) by (auto simp: registry_unblocked_def list_all_iff)
  have sp: "c \<notin> set l" if "l \<in> snd ` set (standalone_parsers cx)" for l
    using inv assms(3) that by (auto simp: registry_unblocked_def list_all_iff)
  have run: "\<not> in_batch pr fw c" if pr: "parsers_to_run rc cx smp blk' = Inr pr"
    for smp blk' pr fw
  proof -
    obtain br' ms where "compile_blocklist rc blk' = Inr br'" and "yara cx smp = Inr ms"
      using pr by (auto simp: parsers_to_run_def split: sum.splits)
    moreover have "c \<notin> set l" if "(n, l) \<in> set (standalone_parsers cx)" for n l
      using sp [of l] that by force
    ultimately show ?thesis
      using parsers_to_run_in_batch [OF _ _ pr, of _ _ fw c] reg
      by (auto dest: registry_lookup_mem)
  qed
  show ?thesis
    using try_frameworks_blocked [OF assms(3)] inspect_candidates_filter reg sp run by blast
qed

theorem discovery_blocklist_excludes_witness:
  "ConfigExtractor_init literal_regex no_rules demo_os demo_fws demo_roots [''Ba'']
     = Inr \<lparr>parsers = [(''plugins.cape.one'', good_parser)],
        standalone_parsers = [(''CAPE'', [good_parser])],
        FRAMEWORK_LIBRARY_MAPPING = demo_fws, yara = (\<lambda>smp. Inr [])\<rparr> \<and>
   blocked (Some (literal_pattern [''Ba''])) (py_name bad_parser) \<and>
   try_frameworks (Some (literal_pattern [''Ba''])) demo_fws
     bad_parser empty_discovery = empty_discovery \<and>
   bad_parser \<notin> snd ` set [(''plugins.cape.one'', good_parser)] \<and>
   bad_parser \<notin> set [good_parser]"
proof -
  have b: "blocked (Some (literal_pattern [''Ba'']))
      (py_name bad_parser)"
    by (simp add: blocked_def rx_match_def demo_py_names literal_pattern_def)
  from discovery_blocklist_excludes [OF blocked_init literal_Ba b, of empty_discovery]
  show ?thesis using blocked_init b by simp
qed

section \<open>Exceptions during discovery\<close>



section \<open>What the blocklist is matched against\<close>

lemma literal_ad:
  "compile_blocklist literal_regex [''ad'', ''plugins'']
     = Inr (Some (literal_pattern [''ad'', ''plugins'']))"
  by (simp add: compile_blocklist_def literal_regex_def)

text \<open>
  C9. A non-empty blocklist is compiled, at discovery and at dispatch, from its patterns
  joined with \<open>|\<close>, and a candidate is blocked exactly when the compiled pattern
  matches at offset 0 of the candidate's \<open>__name__\<close>. Whether discovery registers a
  claimed candidate and whether dispatch puts a parser into a run batch depends on the
  pattern through that test only: a match at a later offset of the name, or a match of
  the \<open>__module__\<close> under which the parser is registered, excludes nothing.
\<close>

theorem blocklist_anchored_on_name:
  assumes "compile_blocklist rc blk = Inr (Some r)"
  shows "blk \<noteq> [] \<and> rc (join ''|'' blk) = Inr r \<and>
    (blocked (Some r) (py_name c) \<longleftrightarrow> r (py_name c) 0) \<and>
    set (dict_keys (parsers (try_frameworks (Some r) fws c d)))
      = set (dict_keys (parsers d)) \<union>
        set_option (if claimed fws c \<and> \<not> r (py_name c) 0 then py_module c else None) \<and>
    (\<forall>self smp ms pr fw.
       yara self smp = Inr ms \<longrightarrow> parsers_to_run rc self smp blk = Inr pr \<longrightarrow>
       (in_batch pr fw c \<longleftrightarrow>
          \<not> r (py_name c) 0 \<and>
          ((\<exists>m \<in> set ms.
              registry_lookup (parsers self) (dict_get (meta m) ''parser_module'') = Some c \<and>
              dict_get (meta m) ''parser_framework'' = fw) \<or>
           (\<exists>n l. fw = Some n \<and> (n, l) \<in> set (standalone_parsers self) \<and> c \<in> set l))))"
proof -
  have src: "blk \<noteq> [] \<and> rc (join ''|'' blk) = Inr r"
    using assms by (auto simp: compile_blocklist_def split: if_splits sum.splits)
  have b: "blocked (Some r) name \<longleftrightarrow> r name 0" for name
    by (simp add: blocked_def rx_match_def)
  have keys: "set (dict_keys (parsers (try_frameworks (Some r) fws c d)))
      = set (dict_keys (parsers d)) \<union>
        set_option (if claimed fws c \<and> \<not> r (py_name c) 0 then py_module c else None)"
    unfolding try_frameworks_keys registered_key_def b ..
  have batch: "in_batch pr fw c \<longleftrightarrow>
      \<not> r (py_name c) 0 \<and>
      ((\<exists>m \<in> set ms.
          registry_lookup (parsers self) (dict_get (meta m) ''parser_module'') = Some c \<and>
          dict_get (meta m) ''parser_framework'' = fw) \<or>
       (\<exists>n l. fw = Some n \<and> (n, l) \<in> set (standalone_parsers self) \<and> c \<in> set l))"
    if "yara self smp = Inr ms" and "parsers_to_run rc self smp blk = Inr pr"
    for self smp ms pr fw
    using parsers_to_run_in_batch [OF assms that, of fw c] by (simp add: b)
  show ?thesis using src b keys batch by blast
qed

theorem blocklist_anchored_on_name_witness:
  "compile_blocklist literal_regex [''ad'', ''plugins'']
     = Inr (Some (literal_pattern [''ad'', ''plugins''])) \<and>
   join ''|'' [''ad'', ''plugins''] = ''ad|plugins'' \<and>
   py_name bad_parser = ''Bad'' \<and> py_module bad_parser = Some ''plugins.cape.two'' \<and>
   rx_search (literal_pattern [''ad'', ''plugins'']) ''Bad'' \<and>
   rx_match (literal_pattern [''ad'', ''plugins'']) ''plugins.cape.two'' \<and>
   \<not> blocked (Some (literal_pattern [''ad'', ''plugins''])) (py_name bad_parser) \<and>
   set (dict_keys (parsers (try_frameworks (Some (literal_pattern [''ad'', ''plugins'']))
       demo_fws bad_parser empty_discovery))) = {''plugins.cape.two''} \<and>
   parsers_to_run literal_regex (demo_extractor []) demo_sample [''ad'', ''plugins'']
     = Inr [(Some ''CAPE'', [(good_parser, []), (bad_parser, [])])] \<and>
   in_batch [(Some ''CAPE'', [(good_parser, []), (bad_parser, [])])] (Some ''CAPE'') bad_parser"
proof -
  let ?r = "literal_pattern [''ad'', ''plugins'']"
  have n: "\<not> ?r (py_name bad_parser) 0" "\<not> ?r (py_name good_parser) 0"
    by (simp_all add: literal_pattern_def demo_py_names)
  have s: "rx_search ?r ''Bad''" "rx_match ?r ''plugins.cape.two''"
    by (simp_all add: rx_search_def rx_match_def literal_pattern_def)
  have c: "claimed demo_fws bad_parser"
    by (simp add: claimed_def demo_fws_def demo_validate declining_validate)
  have nb: "\<not> blocked (Some ?r) (py_name bad_parser)" "\<not> blocked (Some ?r) (py_name good_parser)"
    using n by (simp_all add: blocked_def rx_match_def)
  have pr: "parsers_to_run literal_regex (demo_extractor []) demo_sample [''ad'', ''plugins'']
      = Inr [(Some ''CAPE'', [(good_parser, []), (bad_parser, [])])]"
    using nb
    by (simp add: parsers_to_run_def literal_ad)
      (simp add: demo_extractor_def standalone_loop_def add_to_batch_def dict_get_def
        good_ne_bad)
  have y: "yara (demo_extractor []) demo_sample = Inr []"
    by (simp add: demo_extractor_def)
  have mem: "(''CAPE'', [good_parser, bad_parser]) \<in> set (standalone_parsers (demo_extractor []))"
    by (simp add: demo_extractor_def)
  note T = blocklist_anchored_on_name [OF literal_ad, of bad_parser demo_fws empty_discovery]
  have j: "join ''|'' [''ad'', ''plugins''] = ''ad|plugins''" by simp
  have k: "set (dict_keys (parsers (try_frameworks (Some ?r) demo_fws bad_parser
      empty_discovery))) = {''plugins.cape.two''}"
    using T [THEN conjunct2, THEN conjunct2, THEN conjunct2, THEN conjunct1] n c
    by (simp add: demo_py_modules empty_discovery_def dict_keys_Nil)
  have i: "in_batch [(Some ''CAPE'', [(good_parser, []), (bad_parser, [])])] (Some ''CAPE'')
      bad_parser"
    using T [THEN conjunct2, THEN conjunct2, THEN conjunct2, THEN conjunct2, rule_format,
        OF y pr, of "Some ''CAPE''"] n(1) mem
    by auto
  show ?thesis
    using literal_ad j s nb(1) k pr i by (simp add: demo_py_modules demo_py_names)
qed

section \<open>The per-call blocklist\<close>

lemma set_finalize:
  "(name, r') \<in> set (finalize raw) \<Longrightarrow> \<exists>r. (name, r) \<in> set raw \<and> r' = finalize_record r"
  by (auto simp: finalize_def)

text \<open>
  The loop over the batches: the entry of a framework that has no batch left is not
  touched, and every non-empty batch is handed to its adapter, whose non-empty result
  is the framework's entry when the loop ends.
\<close>

lemma run_loop_other:
  "run_loop fws smp pr res = Inr res' \<Longrightarrow> Some n \<notin> fst ` set pr \<Longrightarrow>
   dict_get res' n = dict_get res n"
proof (induction pr arbitrary: res)
  case Nil
  then show ?case by simp
next
  case (Cons a pr)
  obtain framework b where a: "a = (framework, b)" by (cases a)
  have ne: "framework \<noteq> Some n" and rest: "Some n \<notin> fst ` set pr"
    using Cons.prems(2) a by auto
  show ?case
  proof (cases "b = []")
    case True
    then have "run_loop fws smp pr res = Inr res'" using Cons.prems(1) a by simp
    from Cons.IH [OF this rest] show ?thesis .
  next
    case False
    then obtain k fw raw where k: "framework = Some k" and fw: "dict_get fws k = Some fw"
      and raw: "run fw smp b = Inr raw"
      using Cons.prems(1) a by (auto simp: Let_def split: option.splits sum.splits)
    show ?thesis
    proof (cases "raw = []")
      case True
      then have "run_loop fws smp pr res = Inr res'"
        using Cons.prems(1) a False k fw raw by (simp add: finalize_Nil_iff)
      from Cons.IH [OF this rest] show ?thesis .
    next
      case nonempty: False
      then have "run_loop fws smp pr (dict_set res k (finalize raw)) = Inr res'"
        using Cons.prems(1) a False k fw raw by (simp add: finalize_Nil_iff Let_def)
      from Cons.IH [OF this rest] show ?thesis using ne k by (simp add: dict_get_dict_set)
    qed
  qed
qed

lemma run_loop_entry:
  "run_loop fws smp pr res = Inr res' \<Longrightarrow> distinct (map fst pr) \<Longrightarrow> (Some n, b) \<in> set pr \<Longrightarrow>
   b \<noteq> [] \<Longrightarrow>
   \<exists>fw raw. dict_get fws n = Some fw \<and> run fw smp b = Inr raw \<and>
     (raw \<noteq> [] \<longrightarrow> dict_get res' n = Some (finalize raw))"
proof (induction pr arbitrary: res)
  case Nil
  then show ?case by simp
next
  case (Cons a pr)
  obtain framework b' where a: "a = (framework, b')" by (cases a)
  show ?case
  proof (cases "(Some n, b) = a")
    case True
    then have fb: "framework = Some n" "b' = b" using a by auto
    have notin: "Some n \<notin> fst ` set pr" using Cons.prems(2) a fb by auto
    obtain fw raw where fw: "dict_get fws n = Some fw" and raw: "run fw smp b = Inr raw"
      using Cons.prems(1,4) a fb by (auto simp: Let_def split: option.splits sum.splits)
    have "dict_get res' n = Some (finalize raw)" if "raw \<noteq> []"
    proof -
      have "run_loop fws smp pr (dict_set res n (finalize raw)) = Inr res'"
        using Cons.prems(1,4) a fb fw raw that by (simp add: finalize_Nil_iff Let_def)
      from run_loop_other [OF this notin] show ?thesis by (simp add: dict_get_dict_set)
    qed
    then show ?thesis using fw raw by blast
  next
    case False
    then have mem: "(Some n, b) \<in> set pr" using Cons.prems(3) by auto
    have dist: "distinct (map fst pr)" using Cons.prems(2) by simp
    obtain res1 where "run_loop fws smp pr res1 = Inr res'"
      using Cons.prems(1) a by (auto simp: Let_def split: if_splits option.splits sum.splits)
    from Cons.IH [OF this dist mem Cons.prems(4)] show ?thesis .
  qed
qed

text \<open>
  C8. Let a parser's name match the blocklist passed to one \<open>run_parsers\<close> call. The
  call returns the extractor as it was (registry, standalone sets, compiled ruleset and
  adapters). The parser is in no run batch of that call, and every entry of the result
  the call returns is what the framework's adapter made of a batch without the parser:
  for the CAPE adapter each record of the entry is the output of a parser of the batch
  that is not blocked. The batches of the call hold exactly the unblocked parsers of
  the batches of a call without blocklist. The next call on the returned extractor,
  without blocklist, completes its batches whenever the blocked call did and has the
  parser in the batch of its framework if it is standalone there or a match resolves
  to it; when that call returns a result, the framework's adapter was run on a batch
  with the parser and its non-empty result is the framework's entry: for the CAPE
  adapter and pairwise distinct display names, the record the parser produces is in the
  result under the parser's name.
\<close>

theorem per_call_blocklist_frame:
  assumes "compile_blocklist rc blk = Inr br" and "blocked br (py_name p)"
  shows "fst (run_parsers rc self smp blk) = self \<and>
    (\<forall>pr fw. parsers_to_run rc self smp blk = Inr pr \<longrightarrow> \<not> in_batch pr fw p) \<and>
    (\<forall>res n r.
       snd (run_parsers rc self smp blk) = Inr res \<longrightarrow> dict_get res n = Some r \<longrightarrow>
       (\<exists>pr b fw raw.
          parsers_to_run rc self smp blk = Inr pr \<and> dict_get pr (Some n) = Some b \<and>
          p \<notin> set (dict_keys b) \<and>
          dict_get (FRAMEWORK_LIBRARY_MAPPING self) n = Some fw \<and>
          run fw smp b = Inr raw \<and> r = finalize raw \<and>
          (\<forall>gn ex name r'. fw = CAPE gn ex \<longrightarrow> (name, r') \<in> set r \<longrightarrow>
             (\<exists>q r0. q \<in> set (dict_keys b) \<and> q \<noteq> p \<and> \<not> blocked br (py_name q) \<and>
                gn q = name \<and> CAPE_run_parser name smp q = Inr (Some r0) \<and>
                r' = finalize_record r0)))) \<and>
    ((\<exists>pr. parsers_to_run rc self smp blk = Inr pr) \<longleftrightarrow>
     (\<exists>pr0. parsers_to_run rc (fst (run_parsers rc self smp blk)) smp [] = Inr pr0)) \<and>
    (\<forall>pr pr0 fw q.
       parsers_to_run rc self smp blk = Inr pr \<longrightarrow>
       parsers_to_run rc (fst (run_parsers rc self smp blk)) smp [] = Inr pr0 \<longrightarrow>
       (in_batch pr fw q \<longleftrightarrow> in_batch pr0 fw q \<and> \<not> blocked br (py_name q))) \<and>
    (\<forall>pr0 n l.
       parsers_to_run rc (fst (run_parsers rc self smp blk)) smp [] = Inr pr0 \<longrightarrow>
       (n, l) \<in> set (standalone_parsers self) \<longrightarrow> p \<in> set l \<longrightarrow>
       in_batch pr0 (Some n) p) \<and>
    (\<forall>pr0 ms m.
       parsers_to_run rc (fst (run_parsers rc self smp blk)) smp [] = Inr pr0 \<longrightarrow>
       yara self smp = Inr ms \<longrightarrow> m \<in> set ms \<longrightarrow>
       registry_lookup (parsers self) (dict_get (meta m) ''parser_module'') = Some p \<longrightarrow>
       in_batch pr0 (dict_get (meta m) ''parser_framework'') p) \<and>
    (\<forall>smp' res0 n.
       snd (run_parsers rc (fst (run_parsers rc self smp blk)) smp' []) = Inr res0 \<longrightarrow>
       (\<exists>l. (n, l) \<in> set (standalone_parsers self) \<and> p \<in> set l) \<or>
       (\<exists>ms m. yara self smp' = Inr ms \<and> m \<in> set ms \<and>
          registry_lookup (parsers self) (dict_get (meta m) ''parser_module'') = Some p \<and>
          dict_get (meta m) ''parser_framework'' = Some n) \<longrightarrow>
       (\<exists>pr0 b fw raw.
          parsers_to_run rc self smp' [] = Inr pr0 \<and> dict_get pr0 (Some n) = Some b \<and>
          p \<in> set (dict_keys b) \<and>
          dict_get (FRAMEWORK_LIBRARY_MAPPING self) n = Some fw \<and>
          run fw smp' b = Inr raw \<and>
          (raw \<noteq> [] \<longrightarrow> dict_get res0 n = Some (finalize raw)) \<and>
          (\<forall>gn ex r0. fw = CAPE gn ex \<longrightarrow> distinct (map (\<lambda>x. gn (fst x)) b) \<longrightarrow>
             CAPE_run_parser (gn p) smp' p = Inr (Some r0) \<longrightarrow>
             (\<exists>r. dict_get res0 n = Some r \<and>
                dict_get r (gn p) = Some (finalize_record r0)))))"
proof -
  have frame: "fst (run_parsers rc self smp blk) = self"
    by (simp add: run_parsers_def)
  have with_block: "in_batch pr fw q \<longleftrightarrow>
      \<not> blocked br (py_name q) \<and>
      ((\<exists>m \<in> set ms. registry_lookup (parsers self) (dict_get (meta m) ''parser_module'') = Some q \<and>
          dict_get (meta m) ''parser_framework'' = fw) \<or>
       (\<exists>n l. fw = Some n \<and> (n, l) \<in> set (standalone_parsers self) \<and> q \<in> set l))"
    if "parsers_to_run rc self smp blk = Inr pr" and "yara self smp = Inr ms" for pr fw q ms
    using parsers_to_run_in_batch [OF assms(1) that(2) that(1)] .
  have without: "in_batch pr0 fw q \<longleftrightarrow>
      ((\<exists>m \<in> set ms. registry_lookup (parsers self) (dict_get (meta m) ''parser_module'') = Some q \<and>
          dict_get (meta m) ''parser_framework'' = fw) \<or>
       (\<exists>n l. fw = Some n \<and> (n, l) \<in> set (standalone_parsers self) \<and> q \<in> set l))"
    if "parsers_to_run rc self s [] = Inr pr0" and "yara self s = Inr ms" for s pr0 fw q ms
    using parsers_to_run_in_batch [OF compile_empty_blocklist that(2) that(1)]
    by (simp add: blocked_None)
  have matched: "\<exists>ms. yara self s = Inr ms" if "parsers_to_run rc self s b = Inr pr" for s b pr
    using that by (auto simp: parsers_to_run_def split: sum.splits)
  have 1: "\<forall>pr fw. parsers_to_run rc self smp blk = Inr pr \<longrightarrow> \<not> in_batch pr fw p"
    using with_block matched assms(2) by blast
  have 2: "\<forall>pr pr0 fw q.
       parsers_to_run rc self smp blk = Inr pr \<longrightarrow>
       parsers_to_run rc self smp [] = Inr pr0 \<longrightarrow>
       (in_batch pr fw q \<longleftrightarrow> in_batch pr0 fw q \<and> \<not> blocked br (py_name q))"
  proof (intro allI impI)
    fix pr pr0 fw q
    assume a: "parsers_to_run rc self smp blk = Inr pr"
      and b: "parsers_to_run rc self smp [] = Inr pr0"
    obtain ms where y: "yara self smp = Inr ms" using matched [OF a] by blast
    show "in_batch pr fw q \<longleftrightarrow> in_batch pr0 fw q \<and> \<not> blocked br (py_name q)"
      unfolding with_block [OF a y] without [OF b y] by blast
  qed
  have 3: "\<forall>pr0 n l.
       parsers_to_run rc self smp [] = Inr pr0 \<longrightarrow>
       (n, l) \<in> set (standalone_parsers self) \<longrightarrow> p \<in> set l \<longrightarrow>
       in_batch pr0 (Some n) p"
  proof (intro allI impI)
    fix pr0 n l
    assume a: "parsers_to_run rc self smp [] = Inr pr0"
      and b: "(n, l) \<in> set (standalone_parsers self)" "p \<in> set l"
    obtain ms where y: "yara self smp = Inr ms" using matched [OF a] by blast
    show "in_batch pr0 (Some n) p"
      unfolding without [OF a y] using b by blast
  qed
  have 4: "\<forall>pr0 ms m.
       parsers_to_run rc self smp [] = Inr pr0 \<longrightarrow>
       yara self smp = Inr ms \<longrightarrow> m \<in> set ms \<longrightarrow>
       registry_lookup (parsers self) (dict_get (meta m) ''parser_module'') = Some p \<longrightarrow>
       in_batch pr0 (dict_get (meta m) ''parser_framework'') p"
  proof (intro allI impI)
    fix pr0 ms m
    assume a: "parsers_to_run rc self smp [] = Inr pr0" and y: "yara self smp = Inr ms"
      and m: "m \<in> set ms"
        "registry_lookup (parsers self) (dict_get (meta m) ''parser_module'') = Some p"
    show "in_batch pr0 (dict_get (meta m) ''parser_framework'') p"
      unfolding without [OF a y] using m by blast
  qed
  have 5: "(\<exists>pr. parsers_to_run rc self smp blk = Inr pr) \<longleftrightarrow>
     (\<exists>pr0. parsers_to_run rc self smp [] = Inr pr0)"
    by (rule parsers_to_run_same_outcome [OF assms(1)])
  have A: "\<forall>res n r.
       snd (run_parsers rc self smp blk) = Inr res \<longrightarrow> dict_get res n = Some r \<longrightarrow>
       (\<exists>pr b fw raw.
          parsers_to_run rc self smp blk = Inr pr \<and> dict_get pr (Some n) = Some b \<and>
          p \<notin> set (dict_keys b) \<and>
          dict_get (FRAMEWORK_LIBRARY_MAPPING self) n = Some fw \<and>
          run fw smp b = Inr raw \<and> r = finalize raw \<and>
          (\<forall>gn ex name r'. fw = CAPE gn ex \<longrightarrow> (name, r') \<in> set r \<longrightarrow>
             (\<exists>q r0. q \<in> set (dict_keys b) \<and> q \<noteq> p \<and> \<not> blocked br (py_name q) \<and>
                gn q = name \<and> CAPE_run_parser name smp q = Inr (Some r0) \<and>
                r' = finalize_record r0)))"
  proof (intro allI impI)
    fix res n r
    assume res: "snd (run_parsers rc self smp blk) = Inr res" and get: "dict_get res n = Some r"
    obtain pr where pr: "parsers_to_run rc self smp blk = Inr pr"
      and loop: "run_loop (FRAMEWORK_LIBRARY_MAPPING self) smp pr [] = Inr res"
      using res by (auto simp: run_parsers_def split: sum.splits)
    from run_loop_key [OF loop get]
    obtain b fw raw where mem: "(Some n, b) \<in> set pr"
      and fw: "dict_get (FRAMEWORK_LIBRARY_MAPPING self) n = Some fw"
      and raw: "run fw smp b = Inr raw" and r: "r = finalize raw"
      by (auto simp: dict_get_def)
    have g: "dict_get pr (Some n) = Some b"
      using parsers_to_run_distinct [OF pr] mem by (rule dict_get_mem)
    obtain ms where y: "yara self smp = Inr ms" using matched [OF pr] by blast
    have nb: "\<not> blocked br (py_name q)" if "q \<in> set (dict_keys b)" for q
    proof -
      have "in_batch pr (Some n) q" using g that by (simp add: in_batch_def)
      then show ?thesis unfolding with_block [OF pr y] by blast
    qed
    have np: "p \<notin> set (dict_keys b)" using nb assms(2) by blast
    have cape: "\<forall>gn ex name r'. fw = CAPE gn ex \<longrightarrow> (name, r') \<in> set r \<longrightarrow>
        (\<exists>q r0. q \<in> set (dict_keys b) \<and> q \<noteq> p \<and> \<not> blocked br (py_name q) \<and>
           gn q = name \<and> CAPE_run_parser name smp q = Inr (Some r0) \<and>
           r' = finalize_record r0)"
    proof (intro allI impI)
      fix gn ex name r'
      assume c: "fw = CAPE gn ex" and e: "(name, r') \<in> set r"
      have rawdef: "raw = CAPE_run_loop gn smp b []"
        using raw c by (simp add: CAPE_def CAPE_run_def)
      obtain r0 where r0: "(name, r0) \<in> set raw" "r' = finalize_record r0"
        using e r set_finalize by blast
      then obtain q where q: "q \<in> set (dict_keys b)" "gn q = name"
        "CAPE_run_parser name smp q = Inr (Some r0)"
        using CAPE_run_loop_source [of name r0 gn smp b "[]"] rawdef by auto
      have "q \<noteq> p" using q(1) np by blast
      then show "\<exists>q r0. q \<in> set (dict_keys b) \<and> q \<noteq> p \<and> \<not> blocked br (py_name q) \<and>
           gn q = name \<and> CAPE_run_parser name smp q = Inr (Some r0) \<and>
           r' = finalize_record r0"
        using q nb [OF q(1)] r0(2) by blast
    qed
    show "\<exists>pr b fw raw.
          parsers_to_run rc self smp blk = Inr pr \<and> dict_get pr (Some n) = Some b \<and>
          p \<notin> set (dict_keys b) \<and>
          dict_get (FRAMEWORK_LIBRARY_MAPPING self) n = Some fw \<and>
          run fw smp b = Inr raw \<and> r = finalize raw \<and>
          (\<forall>gn ex name r'. fw = CAPE gn ex \<longrightarrow> (name, r') \<in> set r \<longrightarrow>
             (\<exists>q r0. q \<in> set (dict_keys b) \<and> q \<noteq> p \<and> \<not> blocked br (py_name q) \<and>
                gn q = name \<and> CAPE_run_parser name smp q = Inr (Some r0) \<and>
                r' = finalize_record r0))"
      using pr g np fw raw r cape by (intro exI [of _ pr] exI [of _ b] exI [of _ fw]
          exI [of _ raw] conjI)
  qed
  have B: "\<forall>smp' res0 n.
       snd (run_parsers rc self smp' []) = Inr res0 \<longrightarrow>
       (\<exists>l. (n, l) \<in> set (standalone_parsers self) \<and> p \<in> set l) \<or>
       (\<exists>ms m. yara self smp' = Inr ms \<and> m \<in> set ms \<and>
          registry_lookup (parsers self) (dict_get (meta m) ''parser_module'') = Some p \<and>
          dict_get (meta m) ''parser_framework'' = Some n) \<longrightarrow>
       (\<exists>pr0 b fw raw.
          parsers_to_run rc self smp' [] = Inr pr0 \<and> dict_get pr0 (Some n) = Some b \<and>
          p \<in> set (dict_keys b) \<and>
          dict_get (FRAMEWORK_LIBRARY_MAPPING self) n = Some fw \<and>
          run fw smp' b = Inr raw \<and>
          (raw \<noteq> [] \<longrightarrow> dict_get res0 n = Some (finalize raw)) \<and>
          (\<forall>gn ex r0. fw = CAPE gn ex \<longrightarrow> distinct (map (\<lambda>x. gn (fst x)) b) \<longrightarrow>
             CAPE_run_parser (gn p) smp' p = Inr (Some r0) \<longrightarrow>
             (\<exists>r. dict_get res0 n = Some r \<and>
                dict_get r (gn p) = Some (finalize_record r0))))"
  proof (intro allI impI)
    fix smp' res0 n
    assume res0: "snd (run_parsers rc self smp' []) = Inr res0"
      and off: "(\<exists>l. (n, l) \<in> set (standalone_parsers self) \<and> p \<in> set l) \<or>
       (\<exists>ms m. yara self smp' = Inr ms \<and> m \<in> set ms \<and>
          registry_lookup (parsers self) (dict_get (meta m) ''parser_module'') = Some p \<and>
          dict_get (meta m) ''parser_framework'' = Some n)"
    obtain pr0 where pr0: "parsers_to_run rc self smp' [] = Inr pr0"
      and loop: "run_loop (FRAMEWORK_LIBRARY_MAPPING self) smp' pr0 [] = Inr res0"
      using res0 by (auto simp: run_parsers_def split: sum.splits)
    obtain ms where y: "yara self smp' = Inr ms" using matched [OF pr0] by blast
    have "in_batch pr0 (Some n) p"
      unfolding without [OF pr0 y] using off y by auto
    then obtain b where g: "dict_get pr0 (Some n) = Some b" and pb: "p \<in> set (dict_keys b)"
      by (auto simp: in_batch_def split: option.splits)
    have mem: "(Some n, b) \<in> set pr0" using g by (rule dict_get_Some_mem)
    have ne: "b \<noteq> []" using pb by (auto simp: dict_keys_def)
    have dist: "distinct (map fst pr0)"
      using parsers_to_run_distinct [OF pr0] by (simp add: dict_keys_def)
    from run_loop_entry [OF loop dist mem ne]
    obtain fw raw where fw: "dict_get (FRAMEWORK_LIBRARY_MAPPING self) n = Some fw"
      and raw: "run fw smp' b = Inr raw"
      and ent: "raw \<noteq> [] \<longrightarrow> dict_get res0 n = Some (finalize raw)"
      by blast
    have cape: "\<forall>gn ex r0. fw = CAPE gn ex \<longrightarrow> distinct (map (\<lambda>x. gn (fst x)) b) \<longrightarrow>
        CAPE_run_parser (gn p) smp' p = Inr (Some r0) \<longrightarrow>
        (\<exists>r. dict_get res0 n = Some r \<and> dict_get r (gn p) = Some (finalize_record r0))"
    proof (intro allI impI)
      fix gn ex r0
      assume c: "fw = CAPE gn ex" and d: "distinct (map (\<lambda>x. gn (fst x)) b)"
        and out: "CAPE_run_parser (gn p) smp' p = Inr (Some r0)"
      have rawdef: "raw = CAPE_run_loop gn smp' b []"
        using raw c by (simp add: CAPE_def CAPE_run_def)
      obtain m where m: "(p, m) \<in> set b" using pb by (auto simp: dict_keys_def)
      have rec: "dict_get raw (gn p) = Some r0"
        unfolding rawdef using d m out by (rule CAPE_run_loop_record)
      then have "raw \<noteq> []" by (auto simp: dict_get_def)
      then have "dict_get res0 n = Some (finalize raw)" using ent by simp
      moreover have "dict_get (finalize raw) (gn p) = Some (finalize_record r0)"
        using rec by (simp add: dict_get_finalize)
      ultimately show "\<exists>r. dict_get res0 n = Some r \<and>
          dict_get r (gn p) = Some (finalize_record r0)"
        by blast
    qed
    show "\<exists>pr0 b fw raw.
          parsers_to_run rc self smp' [] = Inr pr0 \<and> dict_get pr0 (Some n) = Some b \<and>
          p \<in> set (dict_keys b) \<and>
          dict_get (FRAMEWORK_LIBRARY_MAPPING self) n = Some fw \<and>
          run fw smp' b = Inr raw \<and>
          (raw \<noteq> [] \<longrightarrow> dict_get res0 n = Some (finalize raw)) \<and>
          (\<forall>gn ex r0. fw = CAPE gn ex \<longrightarrow> distinct (map (\<lambda>x. gn (fst x)) b) \<longrightarrow>
             CAPE_run_parser (gn p) smp' p = Inr (Some r0) \<longrightarrow>
             (\<exists>r. dict_get res0 n = Some r \<and>
                dict_get r (gn p) = Some (finalize_record r0)))"
      using pr0 g pb fw raw ent cape by (intro exI [of _ pr0] exI [of _ b] exI [of _ fw]
          exI [of _ raw] conjI)
  qed
  show ?thesis
    unfolding frame by (intro conjI refl 1 A 5 2 3 4 B)
qed

lemma literal_Go:
  "compile_blocklist literal_regex [''Go''] = Inr (Some (literal_pattern [''Go'']))"
  by (simp add: compile_blocklist_def literal_regex_def)

lemma blocked_Ba_batches:
  "parsers_to_run literal_regex (demo_extractor []) demo_sample [''Ba'', ''Zz'']
     = Inr [(Some ''CAPE'', [(good_parser, [])])]"
proof -
  let ?br = "Some (literal_pattern [''Ba'', ''Zz''])"
  have b: "blocked ?br (py_name bad_parser)"
    by (simp add: blocked_def rx_match_def demo_py_names literal_pattern_def)
  have g: "\<not> blocked ?br (py_name good_parser)"
    by (simp add: blocked_def rx_match_def demo_py_names literal_pattern_def)
  show ?thesis
    using b g
    by (simp add: parsers_to_run_def literal_blocklist)
      (simp add: demo_extractor_def standalone_loop_def add_to_batch_def dict_get_def)
qed

lemma blocked_Ba_run:
  "snd (run_parsers literal_regex (demo_extractor []) demo_sample [''Ba'', ''Zz''])
     = Inr [(''CAPE'', [(''Good'', good_record)])]"
  by (simp add: run_parsers_def blocked_Ba_batches)
    (simp add: demo_extractor_def demo_fws_def demo_CAPE_def CAPE_def CAPE_run_def
      dict_get_def demo_py_names run_good finalize_good)

lemma blocked_Go_run:
  "snd (run_parsers literal_regex (demo_extractor []) demo_sample [''Go'']) = Inr []"
proof -
  let ?br = "Some (literal_pattern [''Go''])"
  have g: "blocked ?br (py_name good_parser)"
    by (simp add: blocked_def rx_match_def demo_py_names literal_pattern_def)
  have b: "\<not> blocked ?br (py_name bad_parser)"
    by (simp add: blocked_def rx_match_def demo_py_names literal_pattern_def)
  have pr: "parsers_to_run literal_regex (demo_extractor []) demo_sample [''Go'']
      = Inr [(Some ''CAPE'', [(bad_parser, [])])]"
    using b g
    by (simp add: parsers_to_run_def literal_Go)
      (simp add: demo_extractor_def standalone_loop_def add_to_batch_def dict_get_def)
  show ?thesis
    by (simp add: run_parsers_def pr)
      (simp add: demo_extractor_def demo_fws_def demo_CAPE_def CAPE_def CAPE_run_def
        dict_get_def demo_py_names run_bad finalize_def)
qed

theorem per_call_blocklist_frame_witness:
  "ConfigExtractor_init literal_regex no_rules demo_os demo_fws demo_roots []
     = Inr (demo_extractor []) \<and>
   compile_blocklist literal_regex [''Ba'', ''Zz'']
     = Inr (Some (literal_pattern [''Ba'', ''Zz''])) \<and>
   blocked (Some (literal_pattern [''Ba'', ''Zz''])) (py_name bad_parser) \<and>
   fst (run_parsers literal_regex (demo_extractor []) demo_sample [''Ba'', ''Zz''])
     = demo_extractor [] \<and>
   snd (run_parsers literal_regex (demo_extractor []) demo_sample [''Ba'', ''Zz''])
     = Inr [(''CAPE'', [(''Good'', good_record)])] \<and>
   (\<exists>b raw.
      parsers_to_run literal_regex (demo_extractor []) demo_sample [''Ba'', ''Zz'']
        = Inr [(Some ''CAPE'', b)] \<and>
      bad_parser \<notin> set (dict_keys b) \<and> run demo_CAPE demo_sample b = Inr raw \<and>
      [(''Good'', good_record)] = finalize raw) \<and>
   compile_blocklist literal_regex [''Go''] = Inr (Some (literal_pattern [''Go''])) \<and>
   blocked (Some (literal_pattern [''Go''])) (py_name good_parser) \<and>
   snd (run_parsers literal_regex (demo_extractor []) demo_sample [''Go'']) = Inr [] \<and>
   snd (run_parsers literal_regex
          (fst (run_parsers literal_regex (demo_extractor []) demo_sample [''Go'']))
          demo_sample [])
     = Inr [(''CAPE'', [(''Good'', good_record)])] \<and>
   (\<exists>r. dict_get [(''CAPE'', [(''Good'', good_record)])] ''CAPE'' = Some r \<and>
      dict_get r (py_name good_parser) = Some (finalize_record good_record))"
proof -
  let ?cx = "demo_extractor []"
  have fws: "dict_get (FRAMEWORK_LIBRARY_MAPPING ?cx) ''CAPE'' = Some demo_CAPE"
    by (simp add: demo_extractor_def demo_fws_def dict_get_def)
  have mem: "(''CAPE'', [good_parser, bad_parser]) \<in> set (standalone_parsers ?cx)"
    by (simp add: demo_extractor_def)
  have b: "blocked (Some (literal_pattern [''Ba'', ''Zz''])) (py_name bad_parser)"
    by (simp add: blocked_def rx_match_def demo_py_names literal_pattern_def)
  note T = per_call_blocklist_frame [OF literal_blocklist b, of ?cx demo_sample]
  have f: "fst (run_parsers literal_regex ?cx demo_sample [''Ba'', ''Zz'']) = ?cx"
    using T [THEN conjunct1] .
  have get: "dict_get [(''CAPE'', [(''Good'', good_record)])] ''CAPE''
      = Some [(''Good'', good_record)]"
    by (simp add: dict_get_def)
  from T [THEN conjunct2, THEN conjunct2, THEN conjunct1, rule_format, OF blocked_Ba_run get]
  obtain pr b' fw raw where
    pr: "parsers_to_run literal_regex ?cx demo_sample [''Ba'', ''Zz''] = Inr pr"
    and g: "dict_get pr (Some ''CAPE'') = Some b'"
    and np: "bad_parser \<notin> set (dict_keys b')"
    and fw: "dict_get (FRAMEWORK_LIBRARY_MAPPING ?cx) ''CAPE'' = Some fw"
    and raw: "run fw demo_sample b' = Inr raw" "[(''Good'', good_record)] = finalize raw"
    by blast
  have "pr = [(Some ''CAPE'', [(good_parser, [])])]"
    using pr blocked_Ba_batches by simp
  then have b': "b' = [(good_parser, [])]" using g by (simp add: dict_get_def)
  have fw': "fw = demo_CAPE" using fw fws by simp
  have excluded: "\<exists>b raw.
      parsers_to_run literal_regex ?cx demo_sample [''Ba'', ''Zz''] = Inr [(Some ''CAPE'', b)] \<and>
      bad_parser \<notin> set (dict_keys b) \<and> run demo_CAPE demo_sample b = Inr raw \<and>
      [(''Good'', good_record)] = finalize raw"
    using blocked_Ba_batches np raw b' fw' by blast
  have bg: "blocked (Some (literal_pattern [''Go''])) (py_name good_parser)"
    by (simp add: blocked_def rx_match_def demo_py_names literal_pattern_def)
  note U = per_call_blocklist_frame [OF literal_Go bg, of ?cx demo_sample]
  have fg: "fst (run_parsers literal_regex ?cx demo_sample [''Go'']) = ?cx"
    using U [THEN conjunct1] .
  have nxt: "snd (run_parsers literal_regex
        (fst (run_parsers literal_regex ?cx demo_sample [''Go''])) demo_sample [])
      = Inr [(''CAPE'', [(''Good'', good_record)])]"
    unfolding fg by (rule demo_run)
  have off: "(\<exists>l. (''CAPE'', l) \<in> set (standalone_parsers ?cx) \<and> good_parser \<in> set l) \<or>
      (\<exists>ms m. yara ?cx demo_sample = Inr ms \<and> m \<in> set ms \<and>
         registry_lookup (parsers ?cx) (dict_get (meta m) ''parser_module'') = Some good_parser \<and>
         dict_get (meta m) ''parser_framework'' = Some ''CAPE'')"
    using mem by (intro disjI1 exI [of _ "[good_parser, bad_parser]"]) simp
  from U [THEN conjunct2, THEN conjunct2, THEN conjunct2, THEN conjunct2, THEN conjunct2,
      THEN conjunct2, THEN conjunct2, rule_format, OF nxt off]
  obtain pr0 b0 fw0 raw0 where
    pr0: "parsers_to_run literal_regex ?cx demo_sample [] = Inr pr0"
    and g0: "dict_get pr0 (Some ''CAPE'') = Some b0"
    and fw0: "dict_get (FRAMEWORK_LIBRARY_MAPPING ?cx) ''CAPE'' = Some fw0"
    and cape: "\<forall>gn ex r0. fw0 = CAPE gn ex \<longrightarrow> distinct (map (\<lambda>x. gn (fst x)) b0) \<longrightarrow>
        CAPE_run_parser (gn good_parser) demo_sample good_parser = Inr (Some r0) \<longrightarrow>
        (\<exists>r. dict_get [(''CAPE'', [(''Good'', good_record)])] ''CAPE'' = Some r \<and>
           dict_get r (gn good_parser) = Some (finalize_record r0))"
    by blast
  have "pr0 = [(Some ''CAPE'', [(good_parser, []), (bad_parser, [])])]"
    using pr0 demo_batches by simp
  then have b0: "b0 = [(good_parser, []), (bad_parser, [])]" using g0 by (simp add: dict_get_def)
  have c0: "fw0 = CAPE py_name (\<lambda>member names. (names, Inr []))"
    using fw0 fws by (simp add: demo_CAPE_def)
  have d0: "distinct (map (\<lambda>x. py_name (fst x)) b0)"
    unfolding b0 by (simp add: demo_py_names)
  have out: "CAPE_run_parser (py_name good_parser) demo_sample good_parser
      = Inr (Some good_record)"
    using run_good by (simp add: demo_py_names)
  have runs: "\<exists>r. dict_get [(''CAPE'', [(''Good'', good_record)])] ''CAPE'' = Some r \<and>
      dict_get r (py_name good_parser) = Some (finalize_record good_record)"
    using cape [rule_format, OF c0 d0 out] .
  show ?thesis
    using demo_init literal_blocklist b f blocked_Ba_run excluded literal_Go bg
      blocked_Go_run nxt runs
    by (intro conjI)
qed

section \<open>The unguarded registry lookup\<close>

text \<open>
  Where no root is staged, every entry of the constructed registry is stored under the
  \<open>__module__\<close> of its value (line 119).
\<close>

lemma init_keyed:
  assumes "ConfigExtractor_init rc yc os fws roots blk = Inr cx"
    and "compile_blocklist rc blk = Inr br"
    and "\<And>r. r \<in> set roots \<Longrightarrow> staging_dir r = None"
  shows "keyed_by_module cx"
proof -
  obtain d where d: "process_roots rc os blk fws roots
      \<lparr>parsers = [], standalone_parsers = [], yara_rules = [], yara_rule_names = []\<rparr> = Inr d"
    and p: "parsers cx = parsers d"
    using assms(1) by (rule init_discovery)
  have e: "d = inspect_candidates br fws (candidates_of roots)
      \<lparr>parsers = [], standalone_parsers = [], yara_rules = [], yara_rule_names = []\<rparr>"
    by (rule process_roots_unstaged [OF d assms(2)]) (rule assms(3))
  have "keyed_by_module
      \<lparr>parsers = [], standalone_parsers = [], yara_rules = [], yara_rule_names = []\<rparr>"
    by (simp add: keyed_by_module_def)
  then have "keyed_by_module (inspect_candidates br fws (candidates_of roots)
      \<lparr>parsers = [], standalone_parsers = [], yara_rules = [], yara_rule_names = []\<rparr>)"
    by (rule inspect_candidates_keyed)
  then have "keyed_by_module d" using e by simp
  then show ?thesis using p by (simp add: keyed_by_module_def)
qed

lemma keyed_lookup:
  "keyed_by_module reg \<Longrightarrow> registry_lookup (parsers reg) pm = Some c \<Longrightarrow> py_module c = pm"
  by (cases pm)
    (auto simp: keyed_by_module_def registry_lookup_def list_all_iff dest!: dict_get_Some_mem)

lemma rules_of_registered_unstaged:
  assumes "\<And>r. r \<in> set roots \<Longrightarrow> staging_dir r = None"
  shows "rules_of_registered br fws roots ms \<longleftrightarrow>
     (\<forall>m \<in> set ms. \<exists>c \<in> set (candidates_of roots).
        claimed fws c \<and> \<not> blocked br (py_name c) \<and> py_module c \<noteq> None \<and>
        dict_get (meta m) ''parser_module'' = py_module c)"
proof -
  have "(\<exists>k \<in> set (identities br fws roots). pm = Some k) \<longleftrightarrow>
      (\<exists>c \<in> set (candidates_of roots).
         claimed fws c \<and> \<not> blocked br (py_name c) \<and> py_module c \<noteq> None \<and> pm = py_module c)"
    for pm
  proof -
    have ids: "set (identities br fws roots)
        = {k. \<exists>c \<in> set (candidates_of roots). registered_key br fws c = Some k}"
      by (rule identities_unstaged) (rule assms)
    show ?thesis
      unfolding ids by (auto simp: registered_key_def split: if_splits)
  qed
  then show ?thesis
    by (simp add: rules_of_registered_def list_all_iff list_ex_iff)
qed

lemma rule_validate:
  "validate rule_CAPE good_parser = Inr True" "validate rule_CAPE module_one = Inr False"
  by (simp_all add: rule_CAPE_def CAPE_def CAPE_validate_def good_parser_def demo_parser_def
      module_one_def)

lemma rule_discovery:
  "inspect_candidates None rule_fws [module_one, good_parser] empty_discovery
   = \<lparr>parsers = [(''plugins.cape.one'', good_parser)], standalone_parsers = [],
      yara_rules = [''rule Good''], yara_rule_names = [''Good'']\<rparr>"
proof -
  have x: "extract_yara_from_module rule_CAPE good_parser [] = ([''Good''], Inr [''rule Good''])"
    by (simp add: rule_CAPE_def CAPE_def demo_py_names)
  show ?thesis
    by (simp add: inspect_candidates_def rule_fws_def try_frameworks_validate_false
        try_frameworks_claims [OF rule_validate(1) blocked_None demo_py_modules(1)]
        rule_validate declining_validate x empty_discovery_def)
qed

lemma rule_init:
  "ConfigExtractor_init literal_regex demo_yara demo_os rule_fws good_roots []
   = Inr rule_extractor"
  using init_unstaged [where roots = good_roots and yc = demo_yara and fws = rule_fws
      and compiled = "\<lambda>smp. Inr [demo_match ''plugins.cape.one'']" and rc = literal_regex
      and blk = "[]" and br = None and os = demo_os,
      OF compile_empty_blocklist demo_unstaged(3)
        demo_discovery_error(3) [OF compile_empty_blocklist]]
  by (simp add: good_candidates rule_discovery demo_yara_def rule_extractor_def)

lemma rule_identities: "identities None rule_fws good_roots = [''plugins.cape.one'']"
proof -
  have c: "root_candidates (demo_root [demo_unit ''plugins.cape.one'' [good_parser]])
      = [module_one, good_parser]"
    using good_candidates by (simp add: candidates_of_def good_roots_def)
  have k: "registered_key None rule_fws module_one = None"
    "registered_key None rule_fws good_parser = Some ''plugins.cape.one''"
    by (simp_all add: registered_key_def claimed_def rule_fws_def rule_validate
        declining_validate blocked_None demo_py_modules)
  show ?thesis
    by (simp add: good_roots_def c List.map_filter_simps k rewrite_key_def)
      (simp add: demo_root_def)
qed

lemma rule_batches:
  "parsers_to_run literal_regex rule_extractor demo_sample []
     = Inr [(Some ''CAPE'', [(good_parser, [demo_match ''plugins.cape.one''])])]"
  by (simp add: parsers_to_run_def compile_blocklist_def rule_extractor_def
      registry_lookup_def standalone_loop_def blocked_def add_to_batch_def dict_get_def
      demo_match_def)

text \<open>
  C10. Where the regex and the ruleset evaluation succeed: if the \<open>parser_module\<close>
  metadata of some match is not a key of the registry (or is missing), \<open>run_parsers\<close>
  raises the lookup error of such a match and returns no result; if the
  \<open>parser_module\<close> of every match is a key of the registry, the run batches are built
  and no lookup error of the registry is raised. For an extractor that the constructor
  returned, the keys of the registry are the identities of the parsers that discovery
  registered; so if every match carries the identity of a registered parser (the rules
  were extracted from registered parsers), every lookup succeeds and the batches are
  built. Where no root is staged that precondition says that every match carries the
  \<open>__module__\<close> of an inspected candidate that was claimed, not blocked and has a
  \<open>__module__\<close>, and every lookup gives a parser whose \<open>__module__\<close> is the
  \<open>parser_module\<close> of the match.
\<close>

theorem unguarded_registry_lookup:
  assumes "compile_blocklist rc blk' = Inr br'" and "yara self smp = Inr ms"
  shows "((\<exists>m \<in> set ms. dict_get (meta m) ''parser_module''
              \<notin> Some ` set (dict_keys (parsers self))) \<longrightarrow>
          (\<exists>m \<in> set ms.
             dict_get (meta m) ''parser_module'' \<notin> Some ` set (dict_keys (parsers self)) \<and>
             snd (run_parsers rc self smp blk')
               = Inl (RegistryKeyError (dict_get (meta m) ''parser_module'')))) \<and>
         ((\<forall>m \<in> set ms. dict_get (meta m) ''parser_module''
              \<in> Some ` set (dict_keys (parsers self))) \<longrightarrow>
          (\<exists>pr. parsers_to_run rc self smp blk' = Inr pr) \<and>
          (\<forall>k. parsers_to_run rc self smp blk' \<noteq> Inl (RegistryKeyError k))) \<and>
         (\<forall>yc os fws roots blk br.
            ConfigExtractor_init rc yc os fws roots blk = Inr self \<longrightarrow>
            compile_blocklist rc blk = Inr br \<longrightarrow>
            rules_of_registered br fws roots ms \<longrightarrow>
            set (dict_keys (parsers self)) = set (identities br fws roots) \<and>
            (\<forall>m \<in> set ms. \<exists>c.
               registry_lookup (parsers self) (dict_get (meta m) ''parser_module'') = Some c) \<and>
            (\<exists>pr. parsers_to_run rc self smp blk' = Inr pr) \<and>
            (\<forall>k. parsers_to_run rc self smp blk' \<noteq> Inl (RegistryKeyError k))) \<and>
         (\<forall>yc os fws roots blk br.
            ConfigExtractor_init rc yc os fws roots blk = Inr self \<longrightarrow>
            compile_blocklist rc blk = Inr br \<longrightarrow>
            (\<forall>r \<in> set roots. staging_dir r = None) \<longrightarrow>
            (rules_of_registered br fws roots ms \<longleftrightarrow>
               (\<forall>m \<in> set ms. \<exists>c \<in> set (candidates_of roots).
                  claimed fws c \<and> \<not> blocked br (py_name c) \<and> py_module c \<noteq> None \<and>
                  dict_get (meta m) ''parser_module'' = py_module c)) \<and>
            (\<forall>m c. registry_lookup (parsers self) (dict_get (meta m) ''parser_module'') = Some c \<longrightarrow>
               py_module c = dict_get (meta m) ''parser_module''))"
proof -
  have unresolved: "(\<exists>m \<in> set ms. dict_get (meta m) ''parser_module''
        \<notin> Some ` set (dict_keys (parsers self))) \<longrightarrow>
      (\<exists>m \<in> set ms.
         dict_get (meta m) ''parser_module'' \<notin> Some ` set (dict_keys (parsers self)) \<and>
         snd (run_parsers rc self smp blk')
           = Inl (RegistryKeyError (dict_get (meta m) ''parser_module'')))"
  proof
    assume "\<exists>m \<in> set ms. dict_get (meta m) ''parser_module''
        \<notin> Some ` set (dict_keys (parsers self))"
    then obtain m where "m \<in> set ms"
      and "registry_lookup (parsers self) (dict_get (meta m) ''parser_module'') = None"
      by (auto simp: registry_lookup_None_iff)
    then obtain e where e: "match_loop (parsers self) br' ms [] = Inl e"
      using match_loop_unresolved by blast
    from match_loop_Inl [OF e] obtain m' where "m' \<in> set ms"
      and "registry_lookup (parsers self) (dict_get (meta m') ''parser_module'') = None"
      and "e = RegistryKeyError (dict_get (meta m') ''parser_module'')"
      by blast
    moreover have "snd (run_parsers rc self smp blk') = Inl e"
      using assms e by (simp add: run_parsers_def parsers_to_run_def)
    ultimately show "\<exists>m \<in> set ms.
        dict_get (meta m) ''parser_module'' \<notin> Some ` set (dict_keys (parsers self)) \<and>
        snd (run_parsers rc self smp blk')
          = Inl (RegistryKeyError (dict_get (meta m) ''parser_module''))"
      by (auto simp: registry_lookup_None_iff)
  qed
  have built: "(\<exists>pr. parsers_to_run rc self smp blk' = Inr pr) \<and>
      (\<forall>k. parsers_to_run rc self smp blk' \<noteq> Inl (RegistryKeyError k))"
    if all: "\<forall>m \<in> set ms. dict_get (meta m) ''parser_module''
        \<in> Some ` set (dict_keys (parsers self))"
  proof -
    have "registry_lookup (parsers self) (dict_get (meta m) ''parser_module'') \<noteq> None"
      if "m \<in> set ms" for m
      using that all by (simp add: registry_lookup_None_iff)
    then obtain pr1 where "match_loop (parsers self) br' ms [] = Inr pr1"
      using match_loop_resolved [of ms "parsers self" br' "[]"] by blast
    then have "parsers_to_run rc self smp blk'
        = Inr (standalone_loop (standalone_parsers self) br' pr1)"
      using assms by (simp add: parsers_to_run_def)
    then show ?thesis by simp
  qed
  have constructed: "set (dict_keys (parsers self)) = set (identities br fws roots) \<and>
      (\<forall>m \<in> set ms. \<exists>c.
         registry_lookup (parsers self) (dict_get (meta m) ''parser_module'') = Some c) \<and>
      (\<exists>pr. parsers_to_run rc self smp blk' = Inr pr) \<and>
      (\<forall>k. parsers_to_run rc self smp blk' \<noteq> Inl (RegistryKeyError k))"
    if init: "ConfigExtractor_init rc yc os fws roots blk = Inr self"
      and br: "compile_blocklist rc blk = Inr br"
      and pre: "rules_of_registered br fws roots ms"
    for yc os fws roots blk br
  proof -
    have keys: "set (dict_keys (parsers self)) = set (identities br fws roots)"
      by (rule init_keys(1) [OF init br])
    have all: "\<forall>m \<in> set ms. dict_get (meta m) ''parser_module''
        \<in> Some ` set (dict_keys (parsers self))"
      using pre unfolding keys by (auto simp: rules_of_registered_def list_all_iff list_ex_iff)
    then have "\<forall>m \<in> set ms. \<exists>c.
        registry_lookup (parsers self) (dict_get (meta m) ''parser_module'') = Some c"
      using registry_lookup_None_iff [of "parsers self"] by (metis not_None_eq)
    then show ?thesis using keys built [OF all] by blast
  qed
  have unstaged: "(rules_of_registered br fws roots ms \<longleftrightarrow>
        (\<forall>m \<in> set ms. \<exists>c \<in> set (candidates_of roots).
           claimed fws c \<and> \<not> blocked br (py_name c) \<and> py_module c \<noteq> None \<and>
           dict_get (meta m) ''parser_module'' = py_module c)) \<and>
      (\<forall>m c. registry_lookup (parsers self) (dict_get (meta m) ''parser_module'') = Some c \<longrightarrow>
         py_module c = dict_get (meta m) ''parser_module'')"
    if init: "ConfigExtractor_init rc yc os fws roots blk = Inr self"
      and br: "compile_blocklist rc blk = Inr br"
      and u: "\<forall>r \<in> set roots. staging_dir r = None"
    for yc os fws roots blk br
  proof -
    have u': "\<And>r. r \<in> set roots \<Longrightarrow> staging_dir r = None" using u by blast
    have "keyed_by_module self" using init br u' by (rule init_keyed)
    then show ?thesis
      using rules_of_registered_unstaged [where br = br and fws = fws and ms = ms, OF u'] keyed_lookup by blast
  qed
  show ?thesis
  proof (intro conjI)
    show "(\<exists>m \<in> set ms. dict_get (meta m) ''parser_module''
          \<notin> Some ` set (dict_keys (parsers self))) \<longrightarrow>
        (\<exists>m \<in> set ms.
           dict_get (meta m) ''parser_module'' \<notin> Some ` set (dict_keys (parsers self)) \<and>
           snd (run_parsers rc self smp blk')
             = Inl (RegistryKeyError (dict_get (meta m) ''parser_module'')))"
      by (rule unresolved)
  next
    show "(\<forall>m \<in> set ms. dict_get (meta m) ''parser_module''
          \<in> Some ` set (dict_keys (parsers self))) \<longrightarrow>
        (\<exists>pr. parsers_to_run rc self smp blk' = Inr pr) \<and>
        (\<forall>k. parsers_to_run rc self smp blk' \<noteq> Inl (RegistryKeyError k))"
      by (rule impI) (rule built)
  next
    show "\<forall>yc os fws roots blk br.
        ConfigExtractor_init rc yc os fws roots blk = Inr self \<longrightarrow>
        compile_blocklist rc blk = Inr br \<longrightarrow>
        rules_of_registered br fws roots ms \<longrightarrow>
        set (dict_keys (parsers self)) = set (identities br fws roots) \<and>
        (\<forall>m \<in> set ms. \<exists>c.
           registry_lookup (parsers self) (dict_get (meta m) ''parser_module'') = Some c) \<and>
        (\<exists>pr. parsers_to_run rc self smp blk' = Inr pr) \<and>
        (\<forall>k. parsers_to_run rc self smp blk' \<noteq> Inl (RegistryKeyError k))"
      by (intro allI impI) (rule constructed)
  next
    show "\<forall>yc os fws roots blk br.
        ConfigExtractor_init rc yc os fws roots blk = Inr self \<longrightarrow>
        compile_blocklist rc blk = Inr br \<longrightarrow>
        (\<forall>r \<in> set roots. staging_dir r = None) \<longrightarrow>
        (rules_of_registered br fws roots ms \<longleftrightarrow>
           (\<forall>m \<in> set ms. \<exists>c \<in> set (candidates_of roots).
              claimed fws c \<and> \<not> blocked br (py_name c) \<and> py_module c \<noteq> None \<and>
              dict_get (meta m) ''parser_module'' = py_module c)) \<and>
        (\<forall>m c. registry_lookup (parsers self) (dict_get (meta m) ''parser_module'') = Some c \<longrightarrow>
           py_module c = dict_get (meta m) ''parser_module'')"
      by (intro allI impI) (rule unstaged)
  qed
qed

theorem unguarded_registry_lookup_witness:
  "snd (run_parsers literal_regex (demo_extractor [demo_match ''ghost'']) demo_sample [])
     = Inl (RegistryKeyError (Some ''ghost'')) \<and>
   Some ''ghost'' \<notin> Some ` set (dict_keys (parsers (demo_extractor [demo_match ''ghost'']))) \<and>
   ConfigExtractor_init literal_regex demo_yara demo_os rule_fws good_roots []
     = Inr rule_extractor \<and>
   yara rule_extractor demo_sample = Inr [demo_match ''plugins.cape.one''] \<and>
   identities None rule_fws good_roots = [''plugins.cape.one''] \<and>
   rules_of_registered None rule_fws good_roots [demo_match ''plugins.cape.one''] \<and>
   list_all (\<lambda>r. staging_dir r = None) good_roots \<and>
   set (dict_keys (parsers rule_extractor)) = {''plugins.cape.one''} \<and>
   registry_lookup (parsers rule_extractor)
     (dict_get (meta (demo_match ''plugins.cape.one'')) ''parser_module'') = Some good_parser \<and>
   py_module good_parser = dict_get (meta (demo_match ''plugins.cape.one'')) ''parser_module'' \<and>
   parsers_to_run literal_regex rule_extractor demo_sample []
     = Inr [(Some ''CAPE'', [(good_parser, [demo_match ''plugins.cape.one''])])]"
proof -
  have y: "yara (demo_extractor ms) demo_sample = Inr ms" for ms
    by (simp add: demo_extractor_def)
  have keys: "set (dict_keys (parsers (demo_extractor ms)))
      = {''plugins.cape.one'', ''plugins.cape.two''}" for ms
    by (simp add: demo_extractor_def dict_keys_def)
  have m: "dict_get (meta (demo_match k)) ''parser_module'' = Some k" for k
    by (simp add: demo_match_def dict_get_def)
  have c: "compile_blocklist literal_regex [] = Inr None"
    by (rule compile_empty_blocklist)
  from unguarded_registry_lookup [OF c y [of "[demo_match ''ghost'']"], THEN conjunct1]
  have 1: "snd (run_parsers literal_regex (demo_extractor [demo_match ''ghost''])
      demo_sample []) = Inl (RegistryKeyError (Some ''ghost''))"
    by (simp add: keys m)
  have yr: "yara rule_extractor demo_sample = Inr [demo_match ''plugins.cape.one'']"
    by (simp add: rule_extractor_def)
  have pre: "rules_of_registered None rule_fws good_roots [demo_match ''plugins.cape.one'']"
    by (simp add: rules_of_registered_def rule_identities m)
  have u: "\<forall>r \<in> set good_roots. staging_dir r = None"
    using demo_unstaged(3) by blast
  note T = unguarded_registry_lookup [OF c yr]
  have 2: "set (dict_keys (parsers rule_extractor)) = set (identities None rule_fws good_roots) \<and>
      (\<forall>m \<in> set [demo_match ''plugins.cape.one'']. \<exists>c.
         registry_lookup (parsers rule_extractor) (dict_get (meta m) ''parser_module'') = Some c) \<and>
      (\<exists>pr. parsers_to_run literal_regex rule_extractor demo_sample [] = Inr pr) \<and>
      (\<forall>k. parsers_to_run literal_regex rule_extractor demo_sample [] \<noteq> Inl (RegistryKeyError k))"
    using T [THEN conjunct2, THEN conjunct2, THEN conjunct1, rule_format, OF rule_init c pre] .
  have 3: "\<forall>m c. registry_lookup (parsers rule_extractor) (dict_get (meta m) ''parser_module'')
        = Some c \<longrightarrow> py_module c = dict_get (meta m) ''parser_module''"
    using T [THEN conjunct2, THEN conjunct2, THEN conjunct2, rule_format, OF rule_init c demo_unstaged(3)]
    by blast
  have k: "set (dict_keys (parsers rule_extractor)) = {''plugins.cape.one''}"
    using 2 by (simp add: rule_identities)
  have l: "registry_lookup (parsers rule_extractor)
      (dict_get (meta (demo_match ''plugins.cape.one'')) ''parser_module'') = Some good_parser"
    by (simp add: m registry_lookup_def rule_extractor_def) (simp add: dict_get_def)
  have mod: "py_module good_parser
      = dict_get (meta (demo_match ''plugins.cape.one'')) ''parser_module''"
    using 3 [rule_format, OF l] .
  have g: "list_all (\<lambda>r. staging_dir r = None) good_roots"
    using u by (simp add: list_all_iff)
  have ghost: "Some ''ghost''
      \<notin> Some ` set (dict_keys (parsers (demo_extractor [demo_match ''ghost''])))"
    by (simp add: keys)
  show ?thesis
    using 1 ghost rule_init yr rule_identities pre g k l mod rule_batches by (intro conjI)
qed

end
